theory Spec2Isabelle
  imports Complex_Main "HOL-Library.AList" "HOL-Library.Char_ord" "HOL-Library.List_Lexorder"
begin

section \<open>JavaScript values used by the tracker\<close>

text \<open>
  A JavaScript number is a \<open>jsnum\<close>: a finite value (an exact rational here, a double
  in the browser), an infinity or \<open>NaN\<close>. The numbers the component stores are the ones
  \<^verbatim>\<open>parseInt\<close> yields: integer-valued doubles and the infinities. The exposure
  calculation is stated on a snapshot of integers, modelled as \<open>int\<close> (exact, so the
  model agrees with the code below \<open>2^53\<close>). \<open>null\<close> and \<open>undefined\<close> are \<open>None\<close>.
\<close>

datatype jsnum = Fin rat | PosInf | NegInf | NaN

text \<open>\<^verbatim>\<open>a / b\<close> on two integer-valued numbers: division by zero does not raise, it
  yields \<open>NaN\<close> (for \<open>0 / 0\<close>) or an infinity.\<close>

definition js_div :: "int \<Rightarrow> int \<Rightarrow> jsnum" where
  "js_div a b =
     (if b = 0 then (if a = 0 then NaN else if a > 0 then PosInf else NegInf)
      else Fin (of_int a / of_int b))"

text \<open>\<^verbatim>\<open>x * k\<close> for a positive integer constant \<open>k\<close>.\<close>

definition js_times :: "jsnum \<Rightarrow> int \<Rightarrow> jsnum" where
  "js_times x k = (case x of Fin r \<Rightarrow> Fin (r * of_int k) | PosInf \<Rightarrow> PosInf | NegInf \<Rightarrow> NegInf | NaN \<Rightarrow> NaN)"

text \<open>\<^verbatim>\<open>-x\<close>, the truthiness test \<^verbatim>\<open>!x\<close>, \<^verbatim>\<open>x || 0\<close> and \<^verbatim>\<open>x <= 0\<close> on a number. \<open>NaN\<close>
  and \<open>0\<close> are the falsy numbers; every comparison with \<open>NaN\<close> is false.\<close>

definition js_neg :: "jsnum \<Rightarrow> jsnum" where
  "js_neg x = (case x of Fin r \<Rightarrow> Fin (- r) | PosInf \<Rightarrow> NegInf | NegInf \<Rightarrow> PosInf | NaN \<Rightarrow> NaN)"

definition falsyNum :: "jsnum \<Rightarrow> bool" where
  "falsyNum x = (x = NaN \<or> x = Fin 0)"

definition numOrZero :: "jsnum \<Rightarrow> jsnum" where
  "numOrZero x = (if falsyNum x then Fin 0 else x)"

definition leZero :: "jsnum \<Rightarrow> bool" where
  "leZero x = (case x of Fin r \<Rightarrow> r \<le> 0 | PosInf \<Rightarrow> False | NegInf \<Rightarrow> True | NaN \<Rightarrow> False)"

subsection \<open>Strings and white space\<close>

text \<open>
  A \<open>string\<close> is the list of the bytes of the text's UTF-8 encoding: an ASCII character
  is one byte, the no-break space U+00A0 is the two bytes \<open>C2 A0\<close>. The table lists the
  encodings of the code points that \<^verbatim>\<open>parseInt\<close> and \<^verbatim>\<open>trim\<close> treat as white space (the
  WhiteSpace and LineTerminator productions of ECMAScript): TAB, LF, VT, FF, CR, SPACE,
  U+00A0, U+1680, U+2000 to U+200A, U+2028, U+2029, U+202F, U+205F, U+3000 and U+FEFF.
\<close>

definition whiteSpace :: "nat list list" where
  "whiteSpace =
     [[0x09], [0x0A], [0x0B], [0x0C], [0x0D], [0x20],
      [0xC2, 0xA0],
      [0xE1, 0x9A, 0x80],
      [0xE2, 0x80, 0x80], [0xE2, 0x80, 0x81], [0xE2, 0x80, 0x82], [0xE2, 0x80, 0x83],
      [0xE2, 0x80, 0x84], [0xE2, 0x80, 0x85], [0xE2, 0x80, 0x86], [0xE2, 0x80, 0x87],
      [0xE2, 0x80, 0x88], [0xE2, 0x80, 0x89], [0xE2, 0x80, 0x8A],
      [0xE2, 0x80, 0xA8], [0xE2, 0x80, 0xA9], [0xE2, 0x80, 0xAF],
      [0xE2, 0x81, 0x9F],
      [0xE3, 0x80, 0x80],
      [0xEF, 0xBB, 0xBF]]"

definition startsWith :: "string \<Rightarrow> nat list \<Rightarrow> bool" where
  "startsWith str w = (map of_char (take (length w) str) = w)"

text \<open>Drops from the front every character whose encoding is in the table.\<close>

fun skipAny :: "nat list list \<Rightarrow> string \<Rightarrow> string" where
  "skipAny table [] = []"
| "skipAny table (c # cs) =
     (case find (startsWith (c # cs)) table of
        None \<Rightarrow> c # cs
      | Some w \<Rightarrow> skipAny table (drop (length w - 1) cs))"

definition skipWhiteSpace :: "string \<Rightarrow> string" where
  "skipWhiteSpace str = skipAny whiteSpace str"

text \<open>\<^verbatim>\<open>str.trim()\<close>: white space is dropped at both ends; at the end the encodings are
  matched backwards.\<close>

definition trim :: "string \<Rightarrow> string" where
  "trim str = rev (skipAny (map rev whiteSpace) (rev (skipWhiteSpace str)))"

subsection \<open>parseInt\<close>

text \<open>
  The Number value of a non-negative integer: the integer itself below \<open>2^53\<close>, above
  that the nearest multiple of the double's unit in the last place (ties to the even
  one), and \<open>Infinity\<close> from \<open>2^1024\<close> on.
\<close>

fun bitLength :: "nat \<Rightarrow> nat" where
  "bitLength n = (if n = 0 then 0 else Suc (bitLength (n div 2)))"

declare bitLength.simps [simp del]

definition toDouble :: "int \<Rightarrow> jsnum" where
  "toDouble m =
     (if m < 2 ^ 53 then Fin (of_int m)
      else
        (let e = bitLength (nat m) - 53;
             q = m div 2 ^ e;
             r = m mod 2 ^ e;
             half = 2 ^ (e - 1);
             q' = (if half < r \<or> (r = half \<and> odd q) then q + 1 else q);
             v = q' * 2 ^ e
         in if 2 ^ 1024 \<le> v then PosInf else Fin (of_int v)))"

text \<open>
  \<^verbatim>\<open>parseInt(string)\<close> with no radix: leading white space is skipped, one sign is read,
  a \<^verbatim>\<open>0x\<close>/\<^verbatim>\<open>0X\<close> prefix selects radix 16, and the longest run of digits is converted to
  the Number value of the integer it denotes; with no digit the result is \<open>NaN\<close>.
  (ECMAScript lets an engine replace the decimal digits after the 20th by zeros before
  converting; the model converts the exact integer, as the current engines do.)
\<close>

definition digitValue :: "char \<Rightarrow> nat option" where
  "digitValue c =
     (let n = (of_char c :: nat) in
      if 48 \<le> n \<and> n \<le> 57 then Some (n - 48)
      else if 97 \<le> n \<and> n \<le> 122 then Some (n - 87)
      else if 65 \<le> n \<and> n \<le> 90 then Some (n - 55)
      else None)"

definition isRadixDigit :: "nat \<Rightarrow> char \<Rightarrow> bool" where
  "isRadixDigit R c = (case digitValue c of None \<Rightarrow> False | Some v \<Rightarrow> v < R)"

definition digitOf :: "char \<Rightarrow> int" where
  "digitOf c = (case digitValue c of None \<Rightarrow> 0 | Some v \<Rightarrow> int v)"

fun stripSign :: "string \<Rightarrow> bool \<times> string" where
  "stripSign [] = (False, [])"
| "stripSign (c # r) =
     (if c = CHR ''-'' then (True, r) else if c = CHR ''+'' then (False, r) else (False, c # r))"

definition parseInt :: "string \<Rightarrow> jsnum" where
  "parseInt str =
     (let (neg, s) = stripSign (skipWhiteSpace str);
          hex = (take 2 s = ''0x'' \<or> take 2 s = ''0X'');
          R = (if hex then 16 else 10);
          Z = takeWhile (isRadixDigit R) (if hex then drop 2 s else s)
      in if Z = [] then NaN
         else (let mathInt = foldl (\<lambda>a c. a * int R + digitOf c) 0 Z
               in if neg then js_neg (toDouble mathInt) else toDouble mathInt))"

text \<open>\<^verbatim>\<open>x || 0\<close> on an integer of the snapshot that may be \<open>undefined\<close>: \<open>undefined\<close> is
  falsy, and so is \<open>0\<close> itself.\<close>

definition orZero :: "int option \<Rightarrow> int" where
  "orZero x = (case x of None \<Rightarrow> 0 | Some n \<Rightarrow> (if n = 0 then 0 else n))"

text \<open>Decimal digits of a natural number, as template literals print it.\<close>

definition digitChar :: "nat \<Rightarrow> char" where
  "digitChar d = ''0123456789'' ! (d mod 10)"

fun showNat :: "nat \<Rightarrow> string" where
  "showNat n = (if n < 10 then [digitChar n] else showNat (n div 10) @ [digitChar n])"

declare showNat.simps [simp del]

subsection \<open>Objects\<close>

text \<open>
  A plain object is an association list from property names to values, in property
  order; a JavaScript object has each key once. \<^verbatim>\<open>{...o, [k]: v}\<close> is
  \<^const>\<open>AList.update\<close> (an existing key keeps its place, a new one goes last), and
  \<^verbatim>\<open>delete o[k]\<close> is \<^const>\<open>AList.delete\<close>.
\<close>

type_synonym 'v obj = "(string \<times> 'v) list"

text \<open>\<^verbatim>\<open>{...x}\<close> where \<open>x\<close> may be \<open>null\<close>: spreading \<open>null\<close> copies nothing.\<close>

definition spread :: "'v obj option \<Rightarrow> 'v obj" where
  "spread x = (case x of None \<Rightarrow> [] | Some m \<Rightarrow> m)"

text \<open>\<^verbatim>\<open>x?.[k]\<close>: \<open>undefined\<close> when \<open>x\<close> is \<open>null\<close> or has no such property.\<close>

definition optGet :: "'v obj option \<Rightarrow> string \<Rightarrow> 'v option" where
  "optGet x k = (case x of None \<Rightarrow> None | Some m \<Rightarrow> map_of m k)"

section \<open>useFirebaseState: one collection bound to one backend path\<close>

text \<open>
  The hook's state: the cached value (\<open>None\<close> is \<open>null\<close>), the loading flag, the
  \<^verbatim>\<open>isInitialLoad\<close> and \<^verbatim>\<open>timerRef\<close> refs, the browser's pending timeouts set by
  this hook (handle, due time, value the callback will write) and the log of
  \<^verbatim>\<open>set(fbRef, v)\<close> calls, oldest first. Times and delays are milliseconds.
\<close>

record 'a coll =
  val :: "'a option"
  loading :: bool
  isInitialLoad :: bool
  timerRef :: "nat option"
  timers :: "(nat \<times> nat \<times> 'a option) list"
  nextTimer :: nat
  writes :: "'a option list"

definition useFirebaseState :: "'a option \<Rightarrow> 'a coll" where
  "useFirebaseState defaultValue =
     \<lparr>val = defaultValue, loading = True, isInitialLoad = True, timerRef = None,
      timers = [], nextTimer = 1, writes = []\<rparr>"

text \<open>The \<^verbatim>\<open>onValue\<close> listener, called with \<^verbatim>\<open>snapshot.val()\<close>.\<close>

definition onValue :: "'a option \<Rightarrow> 'a option \<Rightarrow> 'a coll \<Rightarrow> 'a coll" where
  "onValue defaultValue data s =
     (let s1 = (if data \<noteq> None then s\<lparr>val := data\<rparr>
                else if isInitialLoad s then s\<lparr>writes := writes s @ [defaultValue]\<rparr>
                else s)
      in s1\<lparr>isInitialLoad := False, loading := False\<rparr>)"

text \<open>The browser's timers. \<^verbatim>\<open>clearTimeout\<close> of \<open>null\<close> or of a handle that has fired
  does nothing.\<close>

definition clearTimeout :: "nat option \<Rightarrow> 'a coll \<Rightarrow> 'a coll" where
  "clearTimeout h s = s\<lparr>timers := filter (\<lambda>(h', due, v). Some h' \<noteq> h) (timers s)\<rparr>"

definition setTimeout :: "'a option \<Rightarrow> nat \<Rightarrow> nat \<Rightarrow> 'a coll \<Rightarrow> nat \<times> 'a coll" where
  "setTimeout v delay now s =
     (nextTimer s,
      s\<lparr>timers := timers s @ [(nextTimer s, now + delay, v)], nextTimer := Suc (nextTimer s)\<rparr>)"

text \<open>The clock reaches \<open>now\<close>: every timeout that is due runs its callback
  \<^verbatim>\<open>() => set(fbRef, next)\<close>, earliest first.\<close>

definition runTimers :: "nat \<Rightarrow> 'a coll \<Rightarrow> 'a coll" where
  "runTimers now s =
     (let due = sort_key (\<lambda>(h, d, v). d) (filter (\<lambda>(h, d, v). d \<le> now) (timers s))
      in s\<lparr>writes := writes s @ map (\<lambda>(h, d, v). v) due,
           timers := filter (\<lambda>(h, d, v). \<not> d \<le> now) (timers s)\<rparr>)"

datatype 'a updater = Fn "'a option \<Rightarrow> 'a option" | Val "'a option"

text \<open>\<^verbatim>\<open>typeof updater === "function" ? updater(prev) : updater\<close>.\<close>

definition applyUpdater :: "'a updater \<Rightarrow> 'a option \<Rightarrow> 'a option" where
  "applyUpdater updater prev = (case updater of Fn f \<Rightarrow> f prev | Val v \<Rightarrow> v)"

definition setAndSync :: "nat \<Rightarrow> nat \<Rightarrow> 'a updater \<Rightarrow> 'a coll \<Rightarrow> 'a coll" where
  "setAndSync debounce now updater s =
     (let prev = val s;
          next = applyUpdater updater prev
      in if debounce > 0 then
           (let (h, s') = setTimeout next debounce now (clearTimeout (timerRef s) s)
            in s'\<lparr>timerRef := Some h, val := next\<rparr>)
         else s\<lparr>writes := writes s @ [next], val := next\<rparr>)"

text \<open>Unmounting clears the pending timeout; its write is dropped.\<close>

definition unmount :: "'a coll \<Rightarrow> 'a coll" where
  "unmount s = clearTimeout (timerRef s) s"

section \<open>The tracker's data\<close>

text \<open>
  A hedge record as the ledger stores it under its key (\<open>hedge_entry\<close>, the quantity
  the number \<^verbatim>\<open>parseInt\<close> gave), as the views read it with its key as \<^verbatim>\<open>id\<close>
  (\<open>hedge\<close>; the exposure calculation reads hedges whose quantities are integers, an
  \<open>int hedge\<close>), and as the form holds it while it is edited, quantity and price still
  text (\<open>hedge_form\<close>).
\<close>

record ('q, 'p) hedge_rec =
  entity :: string
  cropYear :: string
  contractType :: string
  contractMonth :: string
  quantity :: 'q
  direction :: string
  price :: 'p
  dateEntered :: string
  "notes" :: string

type_synonym hedge_entry = "(jsnum, jsnum option) hedge_rec"

record 'q hedge = "('q, jsnum option) hedge_rec" +
  hid :: string

record hedge_form = "(string, string) hedge_rec" +
  formId :: "string option"

record audit_entry =
  aid :: string
  timestamp :: string
  user :: string
  action :: string
  auditEntity :: string
  details :: string

definition DEFAULT_CROP_YEARS :: "string list" where
  "DEFAULT_CROP_YEARS = [''2024'', ''2025'', ''2026'', ''2027'']"

definition defaultConsumption :: "jsnum obj obj" where
  "defaultConsumption =
     [(''Hog Finishing'', [(''2024'', Fin 2400000), (''2025'', Fin 2600000), (''2026'', Fin 2800000), (''2027'', Fin 3000000)]),
      (''Feedlot'', [(''2024'', Fin 1800000), (''2025'', Fin 1950000), (''2026'', Fin 2100000), (''2027'', Fin 2200000)])]"

definition defaultProduction :: "jsnum obj obj" where
  "defaultProduction =
     [(''2024'', [(''High Moisture Corn'', Fin 1200000), (''Dry Corn'', Fin 2800000), (''Silage Corn'', Fin 400000)]),
      (''2025'', [(''High Moisture Corn'', Fin 1300000), (''Dry Corn'', Fin 3000000), (''Silage Corn'', Fin 450000)]),
      (''2026'', [(''High Moisture Corn'', Fin 1400000), (''Dry Corn'', Fin 3200000), (''Silage Corn'', Fin 500000)]),
      (''2027'', [(''High Moisture Corn'', Fin 1500000), (''Dry Corn'', Fin 3400000), (''Silage Corn'', Fin 550000)])]"

text \<open>The ledger object read as an array of records, each with its key as \<^verbatim>\<open>id\<close>
  (\<^verbatim>\<open>hedgesObjToArray\<close> on a ledger of well-formed records).\<close>

definition withId :: "string \<Rightarrow> ('q, jsnum option) hedge_rec \<Rightarrow> 'q hedge" where
  "withId k d =
     \<lparr>entity = entity d, cropYear = cropYear d, contractType = contractType d,
      contractMonth = contractMonth d, quantity = quantity d, direction = direction d,
      price = price d, dateEntered = dateEntered d, notes = notes d, hid = k\<rparr>"

definition hedgesArray :: "('q, jsnum option) hedge_rec obj option \<Rightarrow> 'q hedge list" where
  "hedgesArray obj = (case obj of None \<Rightarrow> [] | Some m \<Rightarrow> map (\<lambda>(k, d). withId k d) m)"

section \<open>The exposure calculation\<close>

record calc_result =
  hogCons :: int
  feedCons :: int
  totalCons :: int
  totalProd :: int
  netCash :: int
  hogHedge :: int
  feedHedge :: int
  farmHedge :: int
  totalHedge :: int
  hogNetCash :: int
  feedNetCash :: int
  farmNetCash :: int
  hogNet :: int
  feedNet :: int
  farmNet :: int
  netPosition :: int
  hogHedgePct :: jsnum
  feedHedgePct :: jsnum
  farmHedgePct :: jsnum
  yearHedges :: "int hedge list"
  prodObj :: "int obj"

text \<open>In \<open>calc\<close> a primed name is the local constant of the source; the unprimed name is the
  field of the result it is returned in.\<close>

text \<open>The selected year may be \<open>undefined\<close>; as a property name that reads
  \<^verbatim>\<open>"undefined"\<close>, and no string is \<^verbatim>\<open>===\<close> to it.\<close>

definition propKey :: "string option \<Rightarrow> string" where
  "propKey y = (case y of None \<Rightarrow> ''undefined'' | Some k \<Rightarrow> k)"

text \<open>\<^verbatim>\<open>x || {}\<close>: every object is truthy.\<close>

definition orEmpty :: "'v obj option \<Rightarrow> 'v obj" where
  "orEmpty x = (case x of None \<Rightarrow> [] | Some m \<Rightarrow> m)"

definition hedgeByEntity :: "int hedge list \<Rightarrow> string \<Rightarrow> int" where
  "hedgeByEntity yearHedges' ent =
     foldl (\<lambda>sum h. let qty = orZero (Some (quantity h))
                     in sum + (if direction h = ''Long'' then qty else - qty))
       0 (filter (\<lambda>h. entity h = ent) yearHedges')"

text \<open>The three coverage lines of \<open>calc\<close> have one shape,
  \<^verbatim>\<open>physical > 0 ? Math.abs(hedge) / physical * 100 : 0\<close>.\<close>

definition hedgePct :: "int \<Rightarrow> int \<Rightarrow> jsnum" where
  "hedgePct hedge physical =
     (if physical > 0 then js_times (js_div \<bar>hedge\<bar> physical) 100 else Fin 0)"

definition calc :: "string option \<Rightarrow> int obj obj option \<Rightarrow> int obj obj option \<Rightarrow> int hedge list \<Rightarrow> calc_result" where
  "calc selectedYear consumption production hedges =
     (let y = selectedYear;
          hogCons' = orZero (optGet (optGet consumption ''Hog Finishing'') (propKey y));
          feedCons' = orZero (optGet (optGet consumption ''Feedlot'') (propKey y));
          totalCons' = hogCons' + feedCons';
          prod = orEmpty (optGet production (propKey y));
          totalProd' = foldl (\<lambda>s v. s + orZero (Some v)) 0 (map snd prod);
          netCash' = totalProd' - totalCons';
          yearHedges' = filter (\<lambda>h. Some (cropYear h) = y) hedges;
          hogHedge' = hedgeByEntity yearHedges' ''Hog Finishing'';
          feedHedge' = hedgeByEntity yearHedges' ''Feedlot'';
          farmHedge' = hedgeByEntity yearHedges' ''Farming'';
          totalHedge' = hogHedge' + feedHedge' + farmHedge';
          hogNetCash' = - hogCons';
          feedNetCash' = - feedCons';
          farmNetCash' = totalProd';
          hogNet' = hogNetCash' + hogHedge';
          feedNet' = feedNetCash' + feedHedge';
          farmNet' = farmNetCash' + farmHedge';
          netPosition' = netCash' + totalHedge';
          hogHedgePct' = hedgePct hogHedge' hogCons';
          feedHedgePct' = hedgePct feedHedge' feedCons';
          farmHedgePct' = hedgePct farmHedge' totalProd'
      in \<lparr>hogCons = hogCons', feedCons = feedCons', totalCons = totalCons', totalProd = totalProd',
          netCash = netCash', hogHedge = hogHedge', feedHedge = feedHedge', farmHedge = farmHedge',
          totalHedge = totalHedge', hogNetCash = hogNetCash', feedNetCash = feedNetCash',
          farmNetCash = farmNetCash', hogNet = hogNet', feedNet = feedNet', farmNet = farmNet',
          netPosition = netPosition', hogHedgePct = hogHedgePct', feedHedgePct = feedHedgePct',
          farmHedgePct = farmHedgePct', yearHedges = yearHedges', prodObj = prod\<rparr>)"

section \<open>The component's state and its mutations\<close>

text \<open>
  What the code asks of the browser when a handler runs: the clock (\<^verbatim>\<open>Date.now()\<close> and
  \<^verbatim>\<open>new Date().toISOString()\<close>), the answer to \<^verbatim>\<open>confirm\<close>, and the two library
  functions whose results are floating-point or locale dependent.
\<close>

record browser =
  nowMs :: nat
  nowISO :: string
  confirmAnswer :: bool
  parseFloat :: "string \<Rightarrow> jsnum"
  toLocaleString :: "jsnum \<Rightarrow> string"

text \<open>The local UI state, the five synced collections and the module's id counter
  \<^verbatim>\<open>_id\<close>.\<close>

record app =
  activeTab :: string
  selectedYear :: "string option"
  hedgeModalOpen :: bool
  editingHedge :: "string option"
  entityFilter :: string
  showYearManager :: bool
  newYear :: string
  hedgeForm :: hedge_form
  consumption :: "jsnum obj obj coll"
  production :: "jsnum obj obj coll"
  hedgesObj :: "hedge_entry obj coll"
  cropYears :: "string list coll"
  auditLog :: "audit_entry list coll"
  idCounter :: nat

definition genId :: "browser \<Rightarrow> app \<Rightarrow> string \<times> app" where
  "genId b s =
     (''id_'' @ showNat (Suc (idCounter s)) @ ''_'' @ showNat (nowMs b),
      s\<lparr>idCounter := Suc (idCounter s)\<rparr>)"

definition createAuditEntry :: "browser \<Rightarrow> string \<Rightarrow> string \<Rightarrow> string \<Rightarrow> app \<Rightarrow> audit_entry \<times> app" where
  "createAuditEntry b act ent det s =
     (let (i, s') = genId b s
      in (\<lparr>aid = i, timestamp = nowISO b, user = ''Current User'', action = act,
           auditEntity = ent, details = det\<rparr>, s'))"

text \<open>\<^verbatim>\<open>Array.isArray(prev) ? prev : []\<close> on a value that is an array or \<open>null\<close>.\<close>

definition orNil :: "'v list option \<Rightarrow> 'v list" where
  "orNil prev = (case prev of None \<Rightarrow> [] | Some arr \<Rightarrow> arr)"

definition addAudit :: "browser \<Rightarrow> string \<Rightarrow> string \<Rightarrow> string \<Rightarrow> app \<Rightarrow> app" where
  "addAudit b act ent det s =
     (let (e, s') = createAuditEntry b act ent det s
      in s'\<lparr>auditLog := setAndSync 0 (nowMs b) (Fn (\<lambda>prev. Some (e # orNil prev))) (auditLog s')\<rparr>)"

text \<open>The audit line of a hedge: direction, quantity, contract type and month, crop
  year.\<close>

definition hedgeSummary :: "browser \<Rightarrow> (jsnum, 'p, 'z) hedge_rec_scheme \<Rightarrow> string" where
  "hedgeSummary b h =
     direction h @ '' '' @ toLocaleString b (quantity h) @ '' bu '' @ contractType h @ '' '' @
     contractMonth h @ '' '' @ cropYear h"

text \<open>\<^verbatim>\<open>saveHedge\<close>. A quantity that parses to \<open>NaN\<close>, to \<open>0\<close> or below returns at once.
  \<open>editKey\<close> is \<^verbatim>\<open>editingHedge\<close>, which is falsy both as \<open>null\<close> and as the empty
  string.\<close>

definition saveHedge :: "browser \<Rightarrow> app \<Rightarrow> app" where
  "saveHedge b s =
     (let f = hedgeForm s;
          qty = parseInt (quantity f)
      in if falsyNum qty \<or> leZero qty then s
         else
            (let entry =
                   \<lparr>entity = entity f, cropYear = cropYear f, contractType = contractType f,
                    contractMonth = contractMonth f, quantity = qty, direction = direction f,
                    price = (if price f \<noteq> '''' then Some (parseFloat b (price f)) else None),
                    dateEntered = dateEntered f, notes = notes f\<rparr>;
                 editKey = (case editingHedge s of None \<Rightarrow> '''' | Some k \<Rightarrow> k);
                 s2 =
                   (if editKey \<noteq> '''' then
                      addAudit b ''Hedge Modified'' (entity entry) (hedgeSummary b entry)
                        (s\<lparr>hedgesObj := setAndSync 0 (nowMs b)
                             (Fn (\<lambda>prev. Some (AList.update editKey entry (spread prev))))
                             (hedgesObj s)\<rparr>)
                    else
                      (let (newId, s1) = genId b s
                       in addAudit b ''Hedge Created'' (entity entry) (hedgeSummary b entry)
                            (s1\<lparr>hedgesObj := setAndSync 0 (nowMs b)
                                  (Fn (\<lambda>prev. Some (AList.update newId entry (spread prev))))
                                  (hedgesObj s1)\<rparr>)))
             in s2\<lparr>hedgeModalOpen := False\<rparr>))"

definition deleteHedge :: "browser \<Rightarrow> jsnum hedge \<Rightarrow> app \<Rightarrow> app" where
  "deleteHedge b h s =
     (if \<not> confirmAnswer b then s
      else addAudit b ''Hedge Deleted'' (entity h) (hedgeSummary b h)
             (s\<lparr>hedgesObj := setAndSync 0 (nowMs b)
                  (Fn (\<lambda>prev. Some (AList.delete (hid h) (spread prev))))
                  (hedgesObj s)\<rparr>))"

text \<open>\<^verbatim>\<open>updateConsumption\<close> and \<^verbatim>\<open>updateProduction\<close>: the field's text goes through
  \<^verbatim>\<open>parseInt(val) || 0\<close>; both collections are written with a 500 ms debounce.\<close>

definition updateConsumption :: "browser \<Rightarrow> string \<Rightarrow> string \<Rightarrow> string \<Rightarrow> app \<Rightarrow> app" where
  "updateConsumption b ent year input s =
     (let v = numOrZero (parseInt input)
      in s\<lparr>consumption := setAndSync 500 (nowMs b)
            (Fn (\<lambda>prev. Some (AList.update ent (AList.update year v (orEmpty (optGet prev ent)))
                                 (spread prev))))
            (consumption s)\<rparr>)"

definition updateProduction :: "browser \<Rightarrow> string \<Rightarrow> string \<Rightarrow> string \<Rightarrow> app \<Rightarrow> app" where
  "updateProduction b year type input s =
     (let v = numOrZero (parseInt input)
      in s\<lparr>production := setAndSync 500 (nowMs b)
            (Fn (\<lambda>prev. Some (AList.update year (AList.update type v (orEmpty (optGet prev year)))
                                 (spread prev))))
            (production s)\<rparr>)"

subsection \<open>Crop years\<close>

text \<open>Reading \<^verbatim>\<open>cropYears.length\<close> or calling \<^verbatim>\<open>cropYears.includes\<close> on \<open>null\<close>
  throws.\<close>

datatype error = TypeError

text \<open>The test \<^verbatim>\<open>/^\d{4}$/\<close>.\<close>

definition fourDigits :: "string \<Rightarrow> bool" where
  "fourDigits str = (length str = 4 \<and> list_all (isRadixDigit 10) str)"

definition addCropYear :: "browser \<Rightarrow> app \<Rightarrow> error + app" where
  "addCropYear b s =
     (let y = trim (newYear s) in
      if y = '''' then Inr s
      else case val (cropYears s) of
        None \<Rightarrow> Inl TypeError
      | Some ys \<Rightarrow>
          if y \<in> set ys \<or> \<not> fourDigits y then Inr s
          else
            (let updated = sort (ys @ [y]);
                 s1 = s\<lparr>cropYears := setAndSync 0 (nowMs b) (Val (Some updated)) (cropYears s)\<rparr>;
                 s2 = s1\<lparr>newYear := ''''\<rparr>
             in Inr (addAudit b ''Year Added'' ''System'' (''Crop year '' @ y @ '' added'') s2)))"

text \<open>\<^verbatim>\<open>removeCropYear\<close>. The updater filters the collection's value, which is the list
  \<open>ys\<close> whose length was just read; \<^verbatim>\<open>find\<close> searches that same list and yields
  \<open>undefined\<close> when no other year is left.\<close>

definition removeCropYear :: "browser \<Rightarrow> string \<Rightarrow> app \<Rightarrow> error + app" where
  "removeCropYear b y s =
     (case val (cropYears s) of
        None \<Rightarrow> Inl TypeError
      | Some ys \<Rightarrow>
          if length ys \<le> 1 then Inr s
          else if \<not> confirmAnswer b then Inr s
          else
            (let s1 = s\<lparr>cropYears := setAndSync 0 (nowMs b)
                         (Fn (map_option (filter (\<lambda>yr. yr \<noteq> y)))) (cropYears s)\<rparr>;
                 s2 = (if selectedYear s1 = Some y
                       then s1\<lparr>selectedYear := find (\<lambda>yr. yr \<noteq> y) ys\<rparr> else s1)
             in Inr (addAudit b ''Year Removed'' ''System'' (''Crop year '' @ y @ '' removed'') s2)))"

section \<open>A burst of mutations on a debounced collection\<close>

text \<open>
  A run of \<^verbatim>\<open>setAndSync\<close> calls, each at its own time; before a call the clock has
  reached that time, so the timeouts due by then have run.
\<close>

fun mutateCalls :: "nat \<Rightarrow> (nat \<times> 'a updater) list \<Rightarrow> 'a coll \<Rightarrow> 'a coll" where
  "mutateCalls debounce [] s = s"
| "mutateCalls debounce ((t, u) # calls) s =
     mutateCalls debounce calls (setAndSync debounce t u (runTimers t s))"

text \<open>Each call comes no earlier than the one before it and less than \<open>debounce\<close> after
  it.\<close>

fun withinWindow :: "nat \<Rightarrow> nat list \<Rightarrow> bool" where
  "withinWindow debounce (t # t' # ts) =
     (t \<le> t' \<and> t' < t + debounce \<and> withinWindow debounce (t' # ts))"
| "withinWindow debounce ts = True"

text \<open>The value the last call of a run produces: the updaters applied in order.\<close>

definition lastValue :: "'a option \<Rightarrow> (nat \<times> 'a updater) list \<Rightarrow> 'a option" where
  "lastValue v calls = foldl (\<lambda>v (t, u). applyUpdater u v) v calls"

section \<open>hedgesObjToArray on any value\<close>

text \<open>
  The value Firebase delivers for the ledger is not typed. \<open>jsval\<close> holds the values a
  snapshot or a caller can pass. Property order in a \<open>JObj\<close> is insertion order (the
  engine's reordering of integer-like keys is not tracked), so results are read through
  \<open>getField\<close>.
\<close>

datatype jsval =
  JUndefined | JNull | JBool bool | JNum jsnum | JStr string
  | JArr "jsval list" | JObj "(string \<times> jsval) list"

definition falsy :: "jsval \<Rightarrow> bool" where
  "falsy v =
     (case v of JUndefined \<Rightarrow> True | JNull \<Rightarrow> True | JBool b \<Rightarrow> \<not> b
      | JNum n \<Rightarrow> (n = Fin 0 \<or> n = NaN) | JStr str \<Rightarrow> str = ''''
      | JArr xs \<Rightarrow> False | JObj kvs \<Rightarrow> False)"

definition typeof :: "jsval \<Rightarrow> string" where
  "typeof v =
     (case v of JUndefined \<Rightarrow> ''undefined'' | JNull \<Rightarrow> ''object'' | JBool b \<Rightarrow> ''boolean''
      | JNum n \<Rightarrow> ''number'' | JStr str \<Rightarrow> ''string''
      | JArr xs \<Rightarrow> ''object'' | JObj kvs \<Rightarrow> ''object'')"

text \<open>The own enumerable properties of a value, as \<^verbatim>\<open>Object.entries\<close> lists them and as
  a spread copies them: the fields of an object, the indices of an array or of a string,
  nothing for the other primitives.\<close>

definition ownEntries :: "jsval \<Rightarrow> (string \<times> jsval) list" where
  "ownEntries v =
     (case v of
        JObj kvs \<Rightarrow> kvs
      | JArr xs \<Rightarrow> zip (map showNat [0..<length xs]) xs
      | JStr str \<Rightarrow> zip (map showNat [0..<length str]) (map (\<lambda>c. JStr [c]) str)
      | JUndefined \<Rightarrow> [] | JNull \<Rightarrow> [] | JBool b \<Rightarrow> [] | JNum n \<Rightarrow> [])"

definition getField :: "jsval \<Rightarrow> string \<Rightarrow> jsval option" where
  "getField v k = map_of (ownEntries v) k"

text \<open>\<^verbatim>\<open>{...acc, ...v}\<close>: the properties of \<open>v\<close> are copied in order onto \<open>acc\<close>.\<close>

definition objSpread :: "(string \<times> jsval) list \<Rightarrow> jsval \<Rightarrow> (string \<times> jsval) list" where
  "objSpread acc v = foldl (\<lambda>res (k, x). AList.update k x res) acc (ownEntries v)"

definition hedgesObjToArray :: "jsval \<Rightarrow> jsval list" where
  "hedgesObjToArray obj =
     (if falsy obj \<or> typeof obj \<noteq> ''object'' then []
      else map (\<lambda>(id, data). JObj (objSpread [(''id'', JStr id)] data)) (ownEntries obj))"

text \<open>A value is a JavaScript value only if its property names are distinct.\<close>

definition keysOnce :: "jsval \<Rightarrow> bool" where
  "keysOnce v = distinct (map fst (ownEntries v))"

text \<open>The typed ledger and its records as the values they are in the browser.\<close>

definition encodeEntry :: "hedge_entry \<Rightarrow> (string \<times> jsval) list" where
  "encodeEntry d =
     [(''entity'', JStr (entity d)), (''cropYear'', JStr (cropYear d)),
      (''contractType'', JStr (contractType d)), (''contractMonth'', JStr (contractMonth d)),
      (''quantity'', JNum (quantity d)), (''direction'', JStr (direction d)),
      (''price'', (case price d of None \<Rightarrow> JNull | Some n \<Rightarrow> JNum n)),
      (''dateEntered'', JStr (dateEntered d)), (''notes'', JStr (notes d))]"

definition encodeHedge :: "jsnum hedge \<Rightarrow> jsval" where
  "encodeHedge h = JObj ((''id'', JStr (hid h)) # encodeEntry (hedge_rec.truncate h))"

definition encodeLedger :: "hedge_entry obj option \<Rightarrow> jsval" where
  "encodeLedger obj =
     (case obj of None \<Rightarrow> JNull | Some m \<Rightarrow> JObj (map (\<lambda>(k, d). (k, JObj (encodeEntry d))) m))"

section \<open>The specification's wording of the hedge position and of a rejected save\<close>

text \<open>The sum over ledger records where \<open>cropYear == y\<close> and \<open>entity == e\<close> of
  (\<open>quantity\<close> if \<open>direction == Long\<close> else \<open>-quantity\<close>).\<close>

definition entityHedge :: "string \<Rightarrow> string \<Rightarrow> int hedge list \<Rightarrow> int" where
  "entityHedge y e ledger =
     (\<Sum>h\<leftarrow>filter (\<lambda>h. cropYear h = y \<and> entity h = e) ledger.
        if direction h = ''Long'' then quantity h else - quantity h)"

text \<open>The parsed quantity is not a number, or it is \<open>0\<close> or less.\<close>

definition quantityRejected :: "string \<Rightarrow> bool" where
  "quantityRejected str =
     (case parseInt str of NaN \<Rightarrow> True | Fin q \<Rightarrow> q \<le> 0 | NegInf \<Rightarrow> True | PosInf \<Rightarrow> False)"

text \<open>Every record of the ledger's cached value, and of every value written to the
  backend, has a quantity above \<open>0\<close>.\<close>

definition positiveNum :: "jsnum \<Rightarrow> bool" where
  "positiveNum x = (case x of Fin r \<Rightarrow> 0 < r | PosInf \<Rightarrow> True | NegInf \<Rightarrow> False | NaN \<Rightarrow> False)"

definition allPositive :: "hedge_entry obj option \<Rightarrow> bool" where
  "allPositive obj =
     (case obj of None \<Rightarrow> True | Some m \<Rightarrow> list_all (\<lambda>(k, d). positiveNum (quantity d)) m)"

definition ledgerPositive :: "app \<Rightarrow> bool" where
  "ledgerPositive s =
     (allPositive (val (hedgesObj s)) \<and> list_all allPositive (writes (hedgesObj s)))"

section \<open>Predicates and sample states used in the properties\<close>

text \<open>The collection is Synced once a notification has been processed: it is no longer
  loading and the initial load is over.\<close>

definition synced :: "'a coll \<Rightarrow> bool" where
  "synced s = (\<not> loading s \<and> \<not> isInitialLoad s)"

text \<open>A browser that confirms every dialog, and the component as it is mounted with the
  default consumption, production and crop years, two hedges in the ledger and the hedge
  form filled in for a new Feedlot hedge of the given quantity.\<close>

definition sampleBrowser :: browser where
  "sampleBrowser =
     \<lparr>nowMs = 1000, nowISO = ''2025-03-01T12:00:00.000Z'', confirmAnswer = True,
      parseFloat = (\<lambda>str. (if str = ''4.78'' then Fin (478 / 100) else NaN)),
      toLocaleString =
        (\<lambda>n. case n of Fin r \<Rightarrow> (if r < 0 then ''-'' else '''') @ showNat (nat \<lfloor>\<bar>r\<bar>\<rfloor>)
              | PosInf \<Rightarrow> ''Infinity'' | NegInf \<Rightarrow> ''-Infinity'' | NaN \<Rightarrow> ''NaN'')\<rparr>"

definition sampleEntry :: hedge_entry where
  "sampleEntry =
     \<lparr>entity = ''Farming'', cropYear = ''2025'', contractType = ''Futures'',
      contractMonth = ''Dec'', quantity = Fin 600000, direction = ''Short'',
      price = Some (Fin (505 / 100)), dateEntered = ''2025-01-10'', notes = ''Harvest hedge''\<rparr>"

definition sampleLedger :: "hedge_entry obj" where
  "sampleLedger =
     [(''id_1_900'', sampleEntry),
      (''id_2_900'', sampleEntry\<lparr>entity := ''Feedlot'', contractMonth := ''Jul'',
                                  quantity := Fin 250000, direction := ''Long''\<rparr>)]"

definition sampleForm :: "string \<Rightarrow> hedge_form" where
  "sampleForm qty =
     \<lparr>entity = ''Feedlot'', cropYear = ''2025'', contractType = ''Futures'',
      contractMonth = ''May'', quantity = qty, direction = ''Long'', price = ''4.78'',
      dateEntered = ''2025-01-20'', notes = ''Spring feed lock'', formId = None\<rparr>"

definition sampleApp :: "string \<Rightarrow> app" where
  "sampleApp qty =
     \<lparr>activeTab = ''dashboard'', selectedYear = Some ''2025'', hedgeModalOpen = True,
      editingHedge = None, entityFilter = ''All'', showYearManager = False, newYear = '''',
      hedgeForm = sampleForm qty,
      consumption = onValue (Some defaultConsumption) None (useFirebaseState (Some defaultConsumption)),
      production = onValue (Some defaultProduction) None (useFirebaseState (Some defaultProduction)),
      hedgesObj = onValue (Some []) (Some sampleLedger) (useFirebaseState (Some [])),
      cropYears = onValue (Some DEFAULT_CROP_YEARS) None (useFirebaseState (Some DEFAULT_CROP_YEARS)),
      auditLog = onValue (Some []) None (useFirebaseState (Some [])),
      idCounter = 2\<rparr>"

text \<open>An object in the sense of \<^verbatim>\<open>typeof\<close>, and not \<open>null\<close>: a plain object or an array.\<close>

definition isObject :: "jsval \<Rightarrow> bool" where
  "isObject v = (case v of JObj kvs \<Rightarrow> True | JArr xs \<Rightarrow> True | JUndefined \<Rightarrow> False
                 | JNull \<Rightarrow> False | JBool b \<Rightarrow> False | JNum n \<Rightarrow> False | JStr str \<Rightarrow> False)"

text \<open>At most one timeout of the collection is pending, and it is the one \<^verbatim>\<open>timerRef\<close>
  holds.\<close>

definition onePending :: "'a coll \<Rightarrow> bool" where
  "onePending s =
     (case timers s of [] \<Rightarrow> True | (h, due, v) # rest \<Rightarrow> rest = [] \<and> timerRef s = Some h)"

text \<open>A whole number: a finite integer or an infinity. A number that is not negative:
  \<open>0\<close> or more, or \<open>Infinity\<close>.\<close>

definition wholeNum :: "jsnum \<Rightarrow> bool" where
  "wholeNum x =
     (case x of Fin r \<Rightarrow> r = of_int \<lfloor>r\<rfloor> | PosInf \<Rightarrow> True | NegInf \<Rightarrow> True | NaN \<Rightarrow> False)"

definition nonNegative :: "jsnum \<Rightarrow> bool" where
  "nonNegative x = (case x of Fin r \<Rightarrow> 0 \<le> r | PosInf \<Rightarrow> True | NegInf \<Rightarrow> False | NaN \<Rightarrow> False)"
section \<open>The exposure calculation: properties\<close>

lemma foldl_plus_sum_list:
  "foldl (\<lambda>s x. s + f x) a xs = (a::int) + sum_list (map f xs)"
  by (induction xs arbitrary: a) simp_all

lemma orZero_Some [simp]: "orZero (Some n) = n"
  by (simp add: orZero_def)

lemma orZero_None [simp]: "orZero None = 0"
  by (simp add: orZero_def)

lemma hedgeByEntity_sum:
  "hedgeByEntity hs e =
     (\<Sum>h\<leftarrow>filter (\<lambda>h. entity h = e) hs. if direction h = ''Long'' then quantity h else - quantity h)"
  by (simp add: hedgeByEntity_def Let_def foldl_plus_sum_list)

lemma hedgeByEntity_year:
  "hedgeByEntity (filter (\<lambda>h. cropYear h = y) hs) e = entityHedge y e hs"
  by (simp add: hedgeByEntity_sum entityHedge_def conj_commute)

text \<open>What each field of the result is, in terms of the inputs.\<close>

lemma calc_hogCons:
  "hogCons (calc y c p hs) = orZero (optGet (optGet c ''Hog Finishing'') (propKey y))"
  by (simp add: calc_def Let_def)

lemma calc_feedCons:
  "feedCons (calc y c p hs) = orZero (optGet (optGet c ''Feedlot'') (propKey y))"
  by (simp add: calc_def Let_def)

lemma calc_totalCons: "totalCons (calc y c p hs) = hogCons (calc y c p hs) + feedCons (calc y c p hs)"
  by (simp add: calc_def Let_def)

lemma calc_totalProd:
  "totalProd (calc y c p hs) = sum_list (map snd (orEmpty (optGet p (propKey y))))"
  using foldl_plus_sum_list [of "\<lambda>v. v" 0 "map snd (orEmpty (optGet p (propKey y)))"]
  by (simp add: calc_def Let_def)

lemma calc_netCash: "netCash (calc y c p hs) = totalProd (calc y c p hs) - totalCons (calc y c p hs)"
  by (simp add: calc_def Let_def)

lemma calc_hogHedge:
  "hogHedge (calc y c p hs) = hedgeByEntity (filter (\<lambda>h. Some (cropYear h) = y) hs) ''Hog Finishing''"
  by (simp add: calc_def Let_def)

lemma calc_feedHedge:
  "feedHedge (calc y c p hs) = hedgeByEntity (filter (\<lambda>h. Some (cropYear h) = y) hs) ''Feedlot''"
  by (simp add: calc_def Let_def)

lemma calc_farmHedge:
  "farmHedge (calc y c p hs) = hedgeByEntity (filter (\<lambda>h. Some (cropYear h) = y) hs) ''Farming''"
  by (simp add: calc_def Let_def)

lemma calc_totalHedge:
  "totalHedge (calc y c p hs) =
     hogHedge (calc y c p hs) + feedHedge (calc y c p hs) + farmHedge (calc y c p hs)"
  by (simp add: calc_def Let_def)

lemma calc_hogNet: "hogNet (calc y c p hs) = - hogCons (calc y c p hs) + hogHedge (calc y c p hs)"
  by (simp add: calc_def Let_def)

lemma calc_feedNet: "feedNet (calc y c p hs) = - feedCons (calc y c p hs) + feedHedge (calc y c p hs)"
  by (simp add: calc_def Let_def)

lemma calc_farmNet: "farmNet (calc y c p hs) = totalProd (calc y c p hs) + farmHedge (calc y c p hs)"
  by (simp add: calc_def Let_def)

lemma calc_netPosition:
  "netPosition (calc y c p hs) = netCash (calc y c p hs) + totalHedge (calc y c p hs)"
  by (simp add: calc_def Let_def)

lemma calc_hogHedgePct:
  "hogHedgePct (calc y c p hs) = hedgePct (hogHedge (calc y c p hs)) (hogCons (calc y c p hs))"
  by (simp add: calc_def Let_def)

lemma calc_feedHedgePct:
  "feedHedgePct (calc y c p hs) = hedgePct (feedHedge (calc y c p hs)) (feedCons (calc y c p hs))"
  by (simp add: calc_def Let_def)

lemma calc_farmHedgePct:
  "farmHedgePct (calc y c p hs) = hedgePct (farmHedge (calc y c p hs)) (totalProd (calc y c p hs))"
  by (simp add: calc_def Let_def)

lemmas calc_fields =
  calc_totalCons calc_netCash calc_totalHedge calc_hogNet calc_feedNet calc_farmNet
  calc_netPosition calc_hogHedgePct calc_feedHedgePct calc_farmHedgePct
  calc_hogCons calc_feedCons calc_totalProd calc_hogHedge calc_feedHedge calc_farmHedge

lemmas calc_eval = calc_fields hedgeByEntity_def hedgePct_def optGet_def propKey_def orEmpty_def

text \<open>
  C1. With consumption \<open>{Hog Finishing: {2025: 2600000}}\<close>, no Feedlot consumption,
  production \<open>{2025: {Dry Corn: 3000000}}\<close> and a ledger with no record for 2025, the
  calculation for 2025 gives \<open>totalCons = 2600000\<close>, \<open>totalProd = 3000000\<close>,
  \<open>netCash = 400000\<close>, \<open>hogNet = -2600000\<close>, \<open>farmNet = 3000000\<close> and
  \<open>netPosition = 400000\<close>.
\<close>

theorem calc_example_no_hedges:
  assumes "\<forall>h \<in> set hedges. cropYear h \<noteq> ''2025''"
  shows "(let r = calc (Some ''2025'') (Some [(''Hog Finishing'', [(''2025'', 2600000)])])
                    (Some [(''2025'', [(''Dry Corn'', 3000000)])]) hedges
          in totalCons r = 2600000 \<and> totalProd r = 3000000 \<and> netCash r = 400000 \<and>
             hogNet r = - 2600000 \<and> farmNet r = 3000000 \<and> netPosition r = 400000)"
proof -
  from assms have "filter (\<lambda>h. Some (cropYear h) = Some ''2025'') hedges = []"
    by (simp add: filter_empty_conv)
  then show ?thesis
    by (simp add: Let_def calc_eval)
qed

text \<open>The same at a ledger whose only record is for 2026.\<close>

theorem calc_example_no_hedges_witness:
  "(let ledger = [\<lparr>entity = ''Farming'', cropYear = ''2026'', contractType = ''Futures'',
                   contractMonth = ''Dec'', quantity = 400000, direction = ''Short'',
                   price = None, dateEntered = ''2025-03-05'', notes = ''Forward sale'',
                   hid = ''id_8_1''\<rparr>];
        r = calc (Some ''2025'') (Some [(''Hog Finishing'', [(''2025'', 2600000)])])
              (Some [(''2025'', [(''Dry Corn'', 3000000)])]) ledger
    in list_all (\<lambda>h. cropYear h \<noteq> ''2025'') ledger \<and>
       totalCons r = 2600000 \<and> totalProd r = 3000000 \<and> netCash r = 400000 \<and>
       hogNet r = - 2600000 \<and> farmNet r = 3000000 \<and> netPosition r = 400000)"
proof -
  define ledger :: "int hedge list" where
    "ledger = [\<lparr>entity = ''Farming'', cropYear = ''2026'', contractType = ''Futures'',
                   contractMonth = ''Dec'', quantity = 400000, direction = ''Short'',
                   price = None, dateEntered = ''2025-03-05'', notes = ''Forward sale'',
                   hid = ''id_8_1''\<rparr>]"
  have none: "\<forall>h \<in> set ledger. cropYear h \<noteq> ''2025''"
    by (simp add: ledger_def)
  then have "list_all (\<lambda>h. cropYear h \<noteq> ''2025'') ledger"
    by (simp add: list_all_iff)
  with calc_example_no_hedges [OF none] show ?thesis
    unfolding ledger_def Let_def by blast
qed

text \<open>
  C2. For every ledger and year \<open>y\<close>, the hedge position of an entity is the sum, over
  the records of that year and entity, of \<open>+quantity\<close> for a Long record and
  \<open>-quantity\<close> otherwise (so for every Short record). A single Farming record for
  2025 with quantity 600000 and direction Short gives \<open>farmHedge = -600000\<close>, and with
  production 3000000 for 2025 \<open>farmNet = 2400000\<close>.
\<close>

theorem hedge_position_by_entity:
  "hogHedge (calc (Some y) c p hs) = entityHedge y ''Hog Finishing'' hs \<and>
   feedHedge (calc (Some y) c p hs) = entityHedge y ''Feedlot'' hs \<and>
   farmHedge (calc (Some y) c p hs) = entityHedge y ''Farming'' hs \<and>
   (let r = calc (Some ''2025'') (Some [(''Hog Finishing'', [(''2025'', 2600000)])])
              (Some [(''2025'', [(''Dry Corn'', 3000000)])])
              [h\<lparr>entity := ''Farming'', cropYear := ''2025'', quantity := 600000,
                 direction := ''Short''\<rparr>]
    in farmHedge r = - 600000 \<and> farmNet r = 2400000)"
proof -
  have "hogHedge (calc (Some y) c p hs) = entityHedge y ''Hog Finishing'' hs"
    by (simp add: calc_hogHedge hedgeByEntity_year)
  moreover have "feedHedge (calc (Some y) c p hs) = entityHedge y ''Feedlot'' hs"
    by (simp add: calc_feedHedge hedgeByEntity_year)
  moreover have "farmHedge (calc (Some y) c p hs) = entityHedge y ''Farming'' hs"
    by (simp add: calc_farmHedge hedgeByEntity_year)
  moreover have
    "(let r = calc (Some ''2025'') (Some [(''Hog Finishing'', [(''2025'', 2600000)])])
              (Some [(''2025'', [(''Dry Corn'', 3000000)])])
              [h\<lparr>entity := ''Farming'', cropYear := ''2025'', quantity := 600000,
                 direction := ''Short''\<rparr>]
      in farmHedge r = - 600000 \<and> farmNet r = 2400000)"
    by (simp add: Let_def calc_eval)
  ultimately show ?thesis by blast
qed

text \<open>Without the guard the ratio would not be \<open>0\<close>: a division by a zero magnitude is
  \<open>NaN\<close> or an infinity.\<close>

lemma js_div_zero_not_finite: "js_times (js_div a 0) 100 \<noteq> Fin r"
  by (simp add: js_div_def js_times_def)

text \<open>
  C3. When an entity's physical magnitude is 0 (the consumption of a consumer, the total
  production of the producer), its hedge coverage ratio is exactly \<open>0\<close>, a finite
  number, whatever its hedge position.
\<close>

theorem zero_physical_zero_ratio:
  "(hogCons (calc y c p hs) = 0 \<longrightarrow> hogHedgePct (calc y c p hs) = Fin 0) \<and>
   (feedCons (calc y c p hs) = 0 \<longrightarrow> feedHedgePct (calc y c p hs) = Fin 0) \<and>
   (totalProd (calc y c p hs) = 0 \<longrightarrow> farmHedgePct (calc y c p hs) = Fin 0)"
  by (simp add: calc_hogHedgePct calc_feedHedgePct calc_farmHedgePct hedgePct_def)

text \<open>The same with nothing consumed or produced in 2025 and one hedge per entity.\<close>

theorem zero_physical_zero_ratio_witness:
  "(let hs = map (\<lambda>e. \<lparr>entity = e, cropYear = ''2025'', contractType = ''Futures'',
                        contractMonth = ''Jul'', quantity = 500000, direction = ''Long'',
                        price = None, dateEntered = ''2025-01-15'', notes = '''',
                        hid = ''id_'' @ e\<rparr>) [''Hog Finishing'', ''Feedlot'', ''Farming''];
        r = calc (Some ''2025'') (Some [(''Hog Finishing'', [(''2024'', 2400000)])]) (Some []) hs
    in hogCons r = 0 \<and> hogHedge r = 500000 \<and> hogHedgePct r = Fin 0 \<and>
       feedCons r = 0 \<and> feedHedge r = 500000 \<and> feedHedgePct r = Fin 0 \<and>
       totalProd r = 0 \<and> farmHedge r = 500000 \<and> farmHedgePct r = Fin 0)"
proof -
  define hs :: "int hedge list" where
    "hs = map (\<lambda>e. \<lparr>entity = e, cropYear = ''2025'', contractType = ''Futures'',
                        contractMonth = ''Jul'', quantity = 500000, direction = ''Long'',
                        price = None, dateEntered = ''2025-01-15'', notes = '''',
                        hid = ''id_'' @ e\<rparr>) [''Hog Finishing'', ''Feedlot'', ''Farming'']"
  define r where
    "r = calc (Some ''2025'') (Some [(''Hog Finishing'', [(''2024'', 2400000)])]) (Some []) hs"
  have phys: "hogCons r = 0" "feedCons r = 0" "totalProd r = 0"
    by (simp_all add: r_def calc_hogCons calc_feedCons calc_totalProd optGet_def propKey_def orEmpty_def)
  have hedge: "hogHedge r = 500000" "feedHedge r = 500000" "farmHedge r = 500000"
    by (simp_all add: r_def hs_def calc_hogHedge calc_feedHedge calc_farmHedge hedgeByEntity_def)
  from phys zero_physical_zero_ratio [of "Some ''2025''"
      "Some [(''Hog Finishing'', [(''2024'', 2400000)])]" "Some []" hs]
  have "hogHedgePct r = Fin 0" "feedHedgePct r = Fin 0" "farmHedgePct r = Fin 0"
    by (simp_all add: r_def)
  with phys hedge show ?thesis
    unfolding r_def hs_def Let_def by blast
qed
section \<open>The synced collection: properties\<close>

text \<open>Every operation of the hook keeps a Synced collection Synced.\<close>

lemma synced_onValue: "synced (onValue d data s)"
  by (simp add: synced_def onValue_def Let_def)

lemma synced_runTimers: "synced (runTimers now s) = synced s"
  by (simp add: synced_def runTimers_def Let_def)

lemma synced_setAndSync: "synced (setAndSync d now u s) = synced s"
  by (simp add: synced_def setAndSync_def setTimeout_def clearTimeout_def Let_def)

lemma runTimers_none: "timers s = [] \<Longrightarrow> runTimers now s = s"
  by (simp add: runTimers_def)

lemma runTimers_not_due: "timers s = [(h, due, v)] \<Longrightarrow> now < due \<Longrightarrow> runTimers now s = s"
  by (simp add: runTimers_def)

lemma runTimers_due:
  "timers s = [(h, due, v)] \<Longrightarrow> due \<le> now \<Longrightarrow>
   runTimers now s = s\<lparr>writes := writes s @ [v], timers := []\<rparr>"
  by (simp add: runTimers_def)

lemma setAndSync_first:
  assumes "0 < d" and "timers s = []"
  shows "setAndSync d t u s =
     s\<lparr>timers := [(nextTimer s, t + d, applyUpdater u (val s))], nextTimer := Suc (nextTimer s),
       timerRef := Some (nextTimer s), val := applyUpdater u (val s)\<rparr>"
  using assms by (simp add: setAndSync_def setTimeout_def clearTimeout_def Let_def)

lemma setAndSync_replaces:
  assumes "0 < d" and "timers s = [(h, due, v)]" and "timerRef s = Some h"
  shows "setAndSync d t u s =
     s\<lparr>timers := [(nextTimer s, t + d, applyUpdater u (val s))], nextTimer := Suc (nextTimer s),
       timerRef := Some (nextTimer s), val := applyUpdater u (val s)\<rparr>"
  using assms by (simp add: setAndSync_def setTimeout_def clearTimeout_def Let_def)

text \<open>While calls keep arriving inside the window, the one pending timeout is replaced
  and nothing is written.\<close>

lemma burst_keeps_one_pending:
  assumes "0 < d"
    and "timers s = [(h, t0 + d, val s)]" and "timerRef s = Some h"
    and "withinWindow d (t0 # map fst calls)"
  shows "writes (mutateCalls d calls s) = writes s \<and>
         val (mutateCalls d calls s) = lastValue (val s) calls \<and>
         (\<exists>h'. timers (mutateCalls d calls s) =
                 [(h', last (t0 # map fst calls) + d, lastValue (val s) calls)] \<and>
               timerRef (mutateCalls d calls s) = Some h')"
  using assms(2-)
proof (induction calls arbitrary: s h t0)
  case Nil
  then show ?case by (simp add: lastValue_def)
next
  case (Cons c calls)
  obtain t u where c: "c = (t, u)" by (cases c)
  from Cons.prems c have win: "t0 \<le> t" "t < t0 + d" "withinWindow d (t # map fst calls)"
    by simp_all
  define s1 where "s1 = setAndSync d t u (runTimers t s)"
  from Cons.prems(1) win(2) have quiet: "runTimers t s = s"
    by (rule runTimers_not_due)
  have s1: "s1 = s\<lparr>timers := [(nextTimer s, t + d, applyUpdater u (val s))],
                    nextTimer := Suc (nextTimer s), timerRef := Some (nextTimer s),
                    val := applyUpdater u (val s)\<rparr>"
    unfolding s1_def quiet using \<open>0 < d\<close> Cons.prems(1,2) by (rule setAndSync_replaces)
  have "timers s1 = [(nextTimer s, t + d, val s1)]" "timerRef s1 = Some (nextTimer s)"
    by (simp_all add: s1)
  from Cons.IH [OF this win(3)]
  have "writes (mutateCalls d calls s1) = writes s1 \<and>
        val (mutateCalls d calls s1) = lastValue (val s1) calls \<and>
        (\<exists>h'. timers (mutateCalls d calls s1) =
                [(h', last (t # map fst calls) + d, lastValue (val s1) calls)] \<and>
              timerRef (mutateCalls d calls s1) = Some h')" .
  moreover have "writes s1 = writes s"
    by (simp add: s1)
  moreover have "mutateCalls d (c # calls) s = mutateCalls d calls s1"
    by (simp add: c s1_def)
  moreover have "lastValue (val s) (c # calls) = lastValue (val s1) calls"
    by (simp add: c s1 lastValue_def)
  moreover have "last (t0 # map fst (c # calls)) = last (t # map fst calls)"
    by (simp add: c)
  ultimately show ?case by (simp only:)
qed

lemma burst_from_quiet:
  assumes "0 < d" and "calls \<noteq> []" and "timers s = []" and "withinWindow d (map fst calls)"
  shows "writes (mutateCalls d calls s) = writes s \<and>
         val (mutateCalls d calls s) = lastValue (val s) calls \<and>
         (\<exists>h'. timers (mutateCalls d calls s) =
                 [(h', fst (last calls) + d, lastValue (val s) calls)] \<and>
               timerRef (mutateCalls d calls s) = Some h')"
proof -
  from assms(2) obtain t u rest where calls: "calls = (t, u) # rest"
    by (cases calls) auto
  define s1 where "s1 = setAndSync d t u (runTimers t s)"
  have s1: "s1 = s\<lparr>timers := [(nextTimer s, t + d, applyUpdater u (val s))],
                    nextTimer := Suc (nextTimer s), timerRef := Some (nextTimer s),
                    val := applyUpdater u (val s)\<rparr>"
    unfolding s1_def using assms(1,3) by (simp add: runTimers_none setAndSync_first)
  have "timers s1 = [(nextTimer s, t + d, val s1)]" "timerRef s1 = Some (nextTimer s)"
    by (simp_all add: s1)
  moreover from assms(4) have "withinWindow d (t # map fst rest)"
    by (simp add: calls)
  ultimately have "writes (mutateCalls d rest s1) = writes s1 \<and>
         val (mutateCalls d rest s1) = lastValue (val s1) rest \<and>
         (\<exists>h'. timers (mutateCalls d rest s1) =
                 [(h', last (t # map fst rest) + d, lastValue (val s1) rest)] \<and>
               timerRef (mutateCalls d rest s1) = Some h')"
    using burst_keeps_one_pending [OF assms(1)] by blast
  moreover have "writes s1 = writes s" "val s1 = applyUpdater u (val s)"
    by (simp_all add: s1)
  moreover have "mutateCalls d calls s = mutateCalls d rest s1"
    by (simp add: calls s1_def)
  moreover have "lastValue (val s) calls = lastValue (applyUpdater u (val s)) rest"
    by (simp add: calls lastValue_def)
  moreover have "last (t # map fst rest) = fst (last calls)"
    by (simp add: calls last_map)
  ultimately show ?thesis by simp
qed

lemma withinWindow_take: "withinWindow d ts \<Longrightarrow> withinWindow d (take n ts)"
proof (induction d ts arbitrary: n rule: withinWindow.induct)
  case (1 d t t' ts)
  show ?case
  proof (cases n)
    case 0
    then show ?thesis by simp
  next
    case (Suc m)
    note n = this
    show ?thesis
    proof (cases m)
      case 0
      with n show ?thesis by simp
    next
      case (Suc k)
      from "1.prems" have "withinWindow d (t' # ts)" by simp
      then have "withinWindow d (take m (t' # ts))" by (rule "1.IH")
      with "1.prems" n Suc show ?thesis by simp
    qed
  qed
qed (simp_all add: take_Cons')

text \<open>
  C4. On a collection with \<open>debounce > 0\<close>, let \<open>N\<close> calls of \<^verbatim>\<open>setAndSync\<close> arrive with
  no write pending at the start, each less than \<open>debounce\<close> after the one before. Then
  nothing is written while the burst lasts; exactly one timeout is pending after it,
  carrying the value the last call produced; when it fires, that value is the one write
  issued; and after any number of the calls at most one timeout is pending.
\<close>

theorem debounce_coalesces:
  assumes "0 < d" and "calls \<noteq> []" and "timers s = []" and "withinWindow d (map fst calls)"
  shows "val (mutateCalls d calls s) = lastValue (val s) calls \<and>
         writes (mutateCalls d calls s) = writes s \<and>
         map snd (timers (mutateCalls d calls s)) =
           [(fst (last calls) + d, lastValue (val s) calls)] \<and>
         (\<forall>T. T < fst (last calls) + d \<longrightarrow>
              runTimers T (mutateCalls d calls s) = mutateCalls d calls s) \<and>
         (\<forall>T. fst (last calls) + d \<le> T \<longrightarrow>
              writes (runTimers T (mutateCalls d calls s)) = writes s @ [lastValue (val s) calls] \<and>
              timers (runTimers T (mutateCalls d calls s)) = []) \<and>
         (\<forall>n. length (timers (mutateCalls d (take n calls) s)) \<le> 1)"
proof -
  from burst_from_quiet [OF assms] obtain h' where
    w: "writes (mutateCalls d calls s) = writes s" and
    v: "val (mutateCalls d calls s) = lastValue (val s) calls" and
    t: "timers (mutateCalls d calls s) = [(h', fst (last calls) + d, lastValue (val s) calls)]"
    by blast
  have fired: "writes (runTimers T (mutateCalls d calls s)) = writes s @ [lastValue (val s) calls] \<and>
               timers (runTimers T (mutateCalls d calls s)) = []"
    if "fst (last calls) + d \<le> T" for T
    using runTimers_due [OF t that] w by simp
  have one: "length (timers (mutateCalls d (take n calls) s)) \<le> 1" for n
  proof (cases "take n calls = []")
    case True
    show ?thesis unfolding True using assms(3) by simp
  next
    case False
    moreover from assms(4) have "withinWindow d (map fst (take n calls))"
      by (simp add: take_map [symmetric] withinWindow_take)
    ultimately obtain h where
      "timers (mutateCalls d (take n calls) s) =
         [(h, fst (last (take n calls)) + d, lastValue (val s) (take n calls))]"
      using burst_from_quiet [OF assms(1) _ assms(3)] by blast
    then show ?thesis by simp
  qed
  from v w t fired one runTimers_not_due [OF t] show ?thesis by simp
qed

text \<open>Three keystrokes 0, 100 and 599 ms apart on a 500 ms debounce: one write, of the
  third value, once the clock reaches 1099.\<close>

theorem debounce_coalesces_witness:
  "(0::nat) < 500 \<and>
   withinWindow 500 [0, 100, 599] \<and>
   timers (useFirebaseState (Some (0::nat))) = [] \<and>
   val (mutateCalls 500 [(0, Val (Some 1)), (100, Fn (map_option Suc)), (599, Val (Some 7))]
          (useFirebaseState (Some (0::nat)))) = Some 7 \<and>
   writes (mutateCalls 500 [(0, Val (Some 1)), (100, Fn (map_option Suc)), (599, Val (Some 7))]
          (useFirebaseState (Some (0::nat)))) = [] \<and>
   writes (runTimers 1099
      (mutateCalls 500 [(0, Val (Some 1)), (100, Fn (map_option Suc)), (599, Val (Some 7))]
          (useFirebaseState (Some (0::nat))))) = [Some 7]"
proof -
  have pre: "(0::nat) < 500"
    "[(0, Val (Some 1)), (100, Fn (map_option Suc)), (599::nat, Val (Some (7::nat)))] \<noteq> []"
    "timers (useFirebaseState (Some (0::nat))) = []"
    "withinWindow 500 (map fst [(0, Val (Some 1)), (100, Fn (map_option Suc)), (599::nat, Val (Some (7::nat)))])"
    by (simp_all add: useFirebaseState_def)
  have lv: "lastValue (val (useFirebaseState (Some (0::nat))))
              [(0, Val (Some 1)), (100, Fn (map_option Suc)), (599::nat, Val (Some (7::nat)))] = Some 7"
    by (simp add: lastValue_def applyUpdater_def)
  have w0: "writes (useFirebaseState (Some (0::nat))) = []"
    by (simp add: useFirebaseState_def)
  from debounce_coalesces [OF pre] pre(1,3,4) show ?thesis
    unfolding lv w0 by simp
qed

text \<open>Whatever the order of mutations, notifications and clock ticks, and whatever the
  debounce, the hook never has two timeouts pending.\<close>

lemma onePending_useFirebaseState: "onePending (useFirebaseState d)"
  by (simp add: onePending_def useFirebaseState_def)

lemma onePending_onValue: "onePending s \<Longrightarrow> onePending (onValue d data s)"
  by (auto simp add: onePending_def onValue_def Let_def split: list.splits)

lemma onePending_runTimers: "onePending s \<Longrightarrow> onePending (runTimers now s)"
  by (auto simp add: onePending_def runTimers_def Let_def split: list.splits)

lemma onePending_setAndSync: "onePending s \<Longrightarrow> onePending (setAndSync d now u s)"
  by (auto simp add: onePending_def setAndSync_def setTimeout_def clearTimeout_def Let_def
      split: list.splits)

lemma onePending_unmount: "onePending s \<Longrightarrow> timers (unmount s) = []"
  by (auto simp add: onePending_def unmount_def clearTimeout_def split: list.splits)

lemma onePending_length: "onePending s \<Longrightarrow> length (timers s) \<le> 1"
  by (auto simp add: onePending_def split: list.splits)

text \<open>
  C5, as the code has it. In a Synced collection a notification that carries a value
  overwrites the cached value with it; a notification that carries \<open>null\<close> (nothing at
  the path) leaves the collection as it was; either way the collection stays Synced and
  the listener writes nothing.
\<close>

theorem subsequent_snapshot:
  assumes "synced s"
  shows "val (onValue d (Some x) s) = Some x \<and>
         onValue d None s = s \<and>
         synced (onValue d data s) \<and>
         writes (onValue d data s) = writes s"
  using assms by (simp add: synced_def onValue_def Let_def)

theorem subsequent_snapshot_witness:
  "synced (onValue (Some 0) None (useFirebaseState (Some (0::nat)))) \<and>
   val (onValue (Some 0) (Some 5) (onValue (Some 0) None (useFirebaseState (Some (0::nat))))) = Some 5 \<and>
   writes (onValue (Some 0) (Some 5) (onValue (Some 0) None (useFirebaseState (Some (0::nat))))) = [Some 0]"
proof -
  have s: "synced (onValue (Some 0) None (useFirebaseState (Some (0::nat))))"
    by (rule synced_onValue)
  have "writes (onValue (Some 0) None (useFirebaseState (Some (0::nat)))) = [Some 0]"
    by (simp add: onValue_def useFirebaseState_def)
  with s subsequent_snapshot [OF s, of "Some 0" 5 "Some 5"] show ?thesis by simp
qed

text \<open>C5 as stated fails for a \<open>null\<close> snapshot: after a first notification that
  delivered \<open>1\<close>, a second one delivering \<open>null\<close> leaves the cached value \<open>1\<close>.\<close>

theorem null_snapshot_keeps_value:
  "synced (onValue (Some 0) (Some 1) (useFirebaseState (Some (0::nat)))) \<and>
   val (onValue (Some 0) None (onValue (Some 0) (Some 1) (useFirebaseState (Some (0::nat))))) = Some 1 \<and>
   val (onValue (Some 0) None (onValue (Some 0) (Some 1) (useFirebaseState (Some (0::nat))))) \<noteq> None"
  by (simp add: synced_def onValue_def useFirebaseState_def)
section \<open>The ledger and the crop years: properties\<close>

lemma setAndSync_immediate:
  "setAndSync 0 now u s =
     s\<lparr>writes := writes s @ [applyUpdater u (val s)], val := applyUpdater u (val s)\<rparr>"
  by (simp add: setAndSync_def Let_def)

text \<open>\<^verbatim>\<open>addAudit\<close> touches the audit log and the id counter only.\<close>

lemma addAudit_frame [simp]:
  "hedgesObj (addAudit b act ent det s) = hedgesObj s"
  "consumption (addAudit b act ent det s) = consumption s"
  "production (addAudit b act ent det s) = production s"
  "cropYears (addAudit b act ent det s) = cropYears s"
  "selectedYear (addAudit b act ent det s) = selectedYear s"
  by (simp_all add: addAudit_def createAuditEntry_def genId_def Let_def)

lemma list_all_update:
  "list_all P m \<Longrightarrow> P (k, v) \<Longrightarrow> list_all P (AList.update k v m)"
  by (induction m) auto

text \<open>The specification's reading of a rejected quantity is the code's test
  \<^verbatim>\<open>!qty || qty <= 0\<close>.\<close>

lemma quantityRejected_iff:
  "quantityRejected str = (falsyNum (parseInt str) \<or> leZero (parseInt str))"
  by (cases "parseInt str") (auto simp add: quantityRejected_def falsyNum_def leZero_def)

lemma accepted_positive: "\<not> quantityRejected str \<Longrightarrow> positiveNum (parseInt str)"
  by (cases "parseInt str") (auto simp add: quantityRejected_def positiveNum_def)

lemma saveHedge_rejected:
  "quantityRejected (quantity (hedgeForm s)) \<Longrightarrow> saveHedge b s = s"
  by (simp add: saveHedge_def quantityRejected_iff Let_def)

text \<open>An accepted save writes the ledger with one key set to a record whose quantity is
  the parsed one.\<close>

lemma saveHedge_accepted:
  assumes "\<not> quantityRejected (quantity (hedgeForm s))"
  shows "\<exists>k e. quantity e = parseInt (quantity (hedgeForm s)) \<and>
           hedgesObj (saveHedge b s) =
             (hedgesObj s)\<lparr>writes := writes (hedgesObj s) @
                                  [Some (AList.update k e (spread (val (hedgesObj s))))],
                          val := Some (AList.update k e (spread (val (hedgesObj s))))\<rparr>"
proof -
  let ?f = "hedgeForm s"
  let ?e = "\<lparr>entity = entity ?f, cropYear = cropYear ?f, contractType = contractType ?f,
             contractMonth = contractMonth ?f, quantity = parseInt (quantity ?f),
             direction = direction ?f,
             price = (if price ?f \<noteq> '''' then Some (parseFloat b (price ?f)) else None),
             dateEntered = dateEntered ?f, notes = notes ?f\<rparr>"
  let ?editKey = "(case editingHedge s of None \<Rightarrow> '''' | Some k \<Rightarrow> k)"
  let ?k = "(if ?editKey \<noteq> '''' then ?editKey else fst (genId b s))"
  from assms have go: "\<not> (falsyNum (parseInt (quantity ?f)) \<or> leZero (parseInt (quantity ?f)))"
    by (simp add: quantityRejected_iff)
  have "hedgesObj (saveHedge b s) =
          (hedgesObj s)\<lparr>writes := writes (hedgesObj s) @
                               [Some (AList.update ?k ?e (spread (val (hedgesObj s))))],
                       val := Some (AList.update ?k ?e (spread (val (hedgesObj s))))\<rparr>"
    using go
    by (simp add: saveHedge_def Let_def genId_def setAndSync_immediate applyUpdater_def)
  moreover have "quantity ?e = parseInt (quantity ?f)" by simp
  ultimately show ?thesis by blast
qed

lemma saveHedge_keeps_positive:
  assumes "ledgerPositive s"
  shows "ledgerPositive (saveHedge b s)"
proof (cases "quantityRejected (quantity (hedgeForm s))")
  case True
  with assms show ?thesis by (simp add: saveHedge_rejected)
next
  case False
  from saveHedge_accepted [OF False, of b] obtain k e where
    e: "quantity e = parseInt (quantity (hedgeForm s))" and
    h: "hedgesObj (saveHedge b s) =
          (hedgesObj s)\<lparr>writes := writes (hedgesObj s) @
                               [Some (AList.update k e (spread (val (hedgesObj s))))],
                       val := Some (AList.update k e (spread (val (hedgesObj s))))\<rparr>"
    by blast
  from e False have pos: "positiveNum (quantity e)"
    by (simp add: accepted_positive)
  from assms have "list_all (\<lambda>(k, d). positiveNum (quantity d)) (spread (val (hedgesObj s)))"
    by (simp add: ledgerPositive_def allPositive_def spread_def split: option.splits)
  with pos have "allPositive (Some (AList.update k e (spread (val (hedgesObj s)))))"
    by (simp add: allPositive_def list_all_update)
  with assms show ?thesis
    by (simp add: ledgerPositive_def h)
qed

text \<open>
  C6. A save whose parsed quantity is not a number, or is \<open>0\<close> or less, changes nothing:
  the whole state, with the ledger, the audit log and every write log, is as before. And
  no save ever puts a record with quantity \<open>0\<close> or less in the ledger or in a write to
  the backend.
\<close>

theorem saveHedge_rejects_nonpositive:
  "(quantityRejected (quantity (hedgeForm s)) \<longrightarrow> saveHedge b s = s) \<and>
   (ledgerPositive s \<longrightarrow> ledgerPositive (saveHedge b s))"
  using saveHedge_rejected saveHedge_keeps_positive by blast

lemmas parseInt_eval =
  parseInt_def skipWhiteSpace_def startsWith_def whiteSpace_def isRadixDigit_def
  digitValue_def digitOf_def toDouble_def js_neg_def

lemma sample_rejected: "quantityRejected ''-5''" "quantityRejected ''abc''" "quantityRejected ''0''"
  "quantityRejected ''''"
  by (simp_all add: quantityRejected_def parseInt_eval)

lemma sample_positive: "ledgerPositive (sampleApp qty)"
  by (simp add: ledgerPositive_def sampleApp_def onValue_def useFirebaseState_def
      allPositive_def positiveNum_def sampleLedger_def sampleEntry_def)

text \<open>A save of \<open>-5\<close> bushels leaves the sample state as it is; a save of \<open>400000\<close> adds the
  record and the ledger stays positive.\<close>

theorem saveHedge_rejects_nonpositive_witness:
  "quantityRejected (quantity (hedgeForm (sampleApp ''-5''))) \<and>
   saveHedge sampleBrowser (sampleApp ''-5'') = sampleApp ''-5'' \<and>
   ledgerPositive (sampleApp ''400000'') \<and>
   ledgerPositive (saveHedge sampleBrowser (sampleApp ''400000'')) \<and>
   map fst (spread (val (hedgesObj (saveHedge sampleBrowser (sampleApp ''400000''))))) =
     [''id_1_900'', ''id_2_900'', ''id_3_1000'']"
proof -
  have r: "quantityRejected (quantity (hedgeForm (sampleApp ''-5'')))"
    by (simp add: sampleApp_def sampleForm_def sample_rejected)
  have "parseInt ''400000'' = Fin 400000"
    by (simp add: parseInt_eval)
  then have k: "map fst (spread (val (hedgesObj (saveHedge sampleBrowser (sampleApp ''400000''))))) =
     [''id_1_900'', ''id_2_900'', ''id_3_1000'']"
    by (simp add: saveHedge_def sampleApp_def sampleForm_def Let_def genId_def
        setAndSync_immediate applyUpdater_def spread_def onValue_def useFirebaseState_def
        sampleBrowser_def sampleLedger_def showNat.simps digitChar_def falsyNum_def
        leZero_def)
  from saveHedge_rejects_nonpositive [of "sampleApp ''-5''" sampleBrowser]
       saveHedge_rejects_nonpositive [of "sampleApp ''400000''" sampleBrowser]
       r sample_positive [of "''400000''"] k
  show ?thesis by blast
qed

text \<open>
  C7. A confirmed delete leaves the ledger without the key of the record, in the cache
  and in the write it issues, and every other key with the value it had; when the key
  was in the ledger exactly one entry is gone.
\<close>

theorem deleteHedge_removes_only_that_key:
  assumes "confirmAnswer b" and "val (hedgesObj s) = Some m"
  shows "val (hedgesObj (deleteHedge b h s)) = Some (AList.delete (hid h) m) \<and>
         writes (hedgesObj (deleteHedge b h s)) = writes (hedgesObj s) @ [Some (AList.delete (hid h) m)] \<and>
         map_of (AList.delete (hid h) m) (hid h) = None \<and>
         (\<forall>k. k \<noteq> hid h \<longrightarrow> map_of (AList.delete (hid h) m) k = map_of m k) \<and>
         AList.delete (hid h) m = filter (\<lambda>p. fst p \<noteq> hid h) m \<and>
         (distinct (map fst m) \<and> hid h \<in> fst ` set m \<longrightarrow>
            Suc (length (AList.delete (hid h) m)) = length m)"
proof -
  have "hedgesObj (deleteHedge b h s) =
          (hedgesObj s)\<lparr>writes := writes (hedgesObj s) @ [Some (AList.delete (hid h) m)],
                       val := Some (AList.delete (hid h) m)\<rparr>"
    using assms
    by (simp add: deleteHedge_def setAndSync_immediate applyUpdater_def spread_def)
  then have stored: "val (hedgesObj (deleteHedge b h s)) = Some (AList.delete (hid h) m)"
    "writes (hedgesObj (deleteHedge b h s)) = writes (hedgesObj s) @ [Some (AList.delete (hid h) m)]"
    by simp_all
  have gone: "map_of (AList.delete (hid h) m) (hid h) = None"
    by (simp add: delete_conv)
  have others: "\<forall>k. k \<noteq> hid h \<longrightarrow> map_of (AList.delete (hid h) m) k = map_of m k"
    by (simp add: delete_conv)
  have order: "AList.delete (hid h) m = filter (\<lambda>p. fst p \<noteq> hid h) m"
    by (induction m) auto
  have one: "Suc (length (AList.delete (hid h) m)) = length m"
    if "distinct (map fst m)" "hid h \<in> fst ` set m"
    using that by (induction m) (auto simp add: image_iff)
  from stored gone others order one show ?thesis by blast
qed

text \<open>Deleting the first of the two sample hedges leaves the second, unchanged.\<close>

theorem deleteHedge_removes_only_that_key_witness:
  "confirmAnswer sampleBrowser \<and>
   val (hedgesObj (sampleApp '''')) = Some sampleLedger \<and>
   distinct (map fst sampleLedger) \<and>
   val (hedgesObj (deleteHedge sampleBrowser (withId ''id_1_900'' sampleEntry) (sampleApp ''''))) =
     Some [sampleLedger ! 1] \<and>
   writes (hedgesObj (deleteHedge sampleBrowser (withId ''id_1_900'' sampleEntry) (sampleApp ''''))) =
     [Some [sampleLedger ! 1]]"
proof -
  have c: "confirmAnswer sampleBrowser"
    by (simp add: sampleBrowser_def)
  have m: "val (hedgesObj (sampleApp '''')) = Some sampleLedger"
    by (simp add: sampleApp_def onValue_def useFirebaseState_def)
  have w: "writes (hedgesObj (sampleApp '''')) = []"
    by (simp add: sampleApp_def onValue_def useFirebaseState_def)
  have d: "AList.delete (hid (withId ''id_1_900'' sampleEntry)) sampleLedger = [sampleLedger ! 1]"
    "distinct (map fst sampleLedger)"
    by (simp_all add: withId_def sampleLedger_def AList.delete_eq)
  from deleteHedge_removes_only_that_key [OF c m, of "withId ''id_1_900'' sampleEntry"] c m d w
  show ?thesis by simp
qed

lemma find_filter: "find P xs = (case filter P xs of [] \<Rightarrow> None | x # rest \<Rightarrow> Some x)"
  by (induction xs) simp_all

lemma another_year_remains:
  assumes "distinct ys" and "1 < length ys"
  shows "filter (\<lambda>yr. yr \<noteq> y) ys \<noteq> []"
proof -
  from assms(2) obtain a b rest where ys: "ys = a # b # rest"
    by (cases ys; cases "tl ys") auto
  with assms(1) have "a \<noteq> b" by simp
  then have "a \<noteq> y \<or> b \<noteq> y" by blast
  with ys show ?thesis by auto
qed

lemma sorted_hd_least: "sorted xs \<Longrightarrow> z \<in> set xs \<Longrightarrow> hd xs \<le> z"
  by (cases xs) auto

lemma removeCropYear_refused:
  "val (cropYears s) = Some ys \<Longrightarrow> length ys \<le> 1 \<or> \<not> confirmAnswer b \<Longrightarrow>
   removeCropYear b y s = Inr s"
  by (auto simp add: removeCropYear_def)

lemma removeCropYear_done:
  assumes "val (cropYears s) = Some ys" and "1 < length ys" and "confirmAnswer b"
  shows "\<exists>s'. removeCropYear b y s = Inr s' \<and>
           val (cropYears s') = Some (filter (\<lambda>yr. yr \<noteq> y) ys) \<and>
           writes (cropYears s') = writes (cropYears s) @ [Some (filter (\<lambda>yr. yr \<noteq> y) ys)] \<and>
           selectedYear s' =
             (if selectedYear s = Some y then find (\<lambda>yr. yr \<noteq> y) ys else selectedYear s)"
  using assms
  by (simp add: removeCropYear_def Let_def setAndSync_immediate applyUpdater_def)

text \<open>\<^verbatim>\<open>trim\<close> drops white space that takes more than one byte too: a no-break space
  before the year, an ideographic space and a line feed after it.\<close>

lemma trim_sample:
  "trim ([CHR 0xC2, CHR 0xA0] @ '' 2028'' @ [CHR 0xE3, CHR 0x80, CHR 0x80, CHR 0x0A]) = ''2028''"
  by (simp add: trim_def skipWhiteSpace_def startsWith_def whiteSpace_def)

text \<open>Adding and removing keep the crop years a set in ascending order.\<close>

lemma addCropYear_keeps_set:
  assumes "val (cropYears s) = Some ys" and "distinct ys" and "sorted ys"
    and "addCropYear b s = Inr s'"
  shows "\<exists>ys'. val (cropYears s') = Some ys' \<and> distinct ys' \<and> sorted ys' \<and> set ys \<subseteq> set ys'"
proof (cases "trim (newYear s) = '''' \<or> trim (newYear s) \<in> set ys \<or> \<not> fourDigits (trim (newYear s))")
  case True
  with assms(1,4) have "s' = s"
    by (auto simp add: addCropYear_def Let_def split: if_splits)
  with assms show ?thesis by simp
next
  case False
  with assms(1,4) have "val (cropYears s') = Some (sort (ys @ [trim (newYear s)]))"
    by (auto simp add: addCropYear_def Let_def setAndSync_immediate applyUpdater_def
        split: if_splits)
  moreover from False assms(2) have "distinct (sort (ys @ [trim (newYear s)]))"
    by simp
  ultimately show ?thesis by auto
qed

lemma removeCropYear_keeps_set:
  assumes "val (cropYears s) = Some ys" and "distinct ys" and "sorted ys"
    and "removeCropYear b y s = Inr s'"
  shows "\<exists>ys'. val (cropYears s') = Some ys' \<and> distinct ys' \<and> sorted ys' \<and> set ys' \<subseteq> set ys"
proof (cases "length ys \<le> 1 \<or> \<not> confirmAnswer b")
  case True
  with assms(1,4) have "s' = s"
    by (simp add: removeCropYear_refused)
  with assms show ?thesis by simp
next
  case False
  with assms(1,4) have "val (cropYears s') = Some (filter (\<lambda>yr. yr \<noteq> y) ys)"
    using removeCropYear_done [of s ys b y] by auto
  with assms(2,3) show ?thesis
    by (auto simp add: sorted_wrt_filter)
qed

text \<open>
  C8. Removing a year from a crop-year set (a list of distinct years) is refused when one
  year is left, and the state is unchanged; so a set that is not empty never becomes
  empty. When more than one year is left and the removal is confirmed, the year is
  filtered out, and if it was the selected year the selection becomes the first of the
  remaining years, which in an ascending set is the least of them.
\<close>

theorem removeCropYear_keeps_a_year:
  assumes "val (cropYears s) = Some ys" and "distinct ys"
  shows "(length ys \<le> 1 \<longrightarrow> removeCropYear b y s = Inr s) \<and>
         (\<exists>s' ys'. removeCropYear b y s = Inr s' \<and> val (cropYears s') = Some ys' \<and>
            (ys \<noteq> [] \<longrightarrow> ys' \<noteq> []) \<and>
            (1 < length ys \<and> confirmAnswer b \<longrightarrow> ys' = filter (\<lambda>yr. yr \<noteq> y) ys) \<and>
            (1 < length ys \<and> confirmAnswer b \<and> selectedYear s = Some y \<longrightarrow>
               selectedYear s' = Some (hd ys') \<and>
               (sorted ys \<longrightarrow> (\<forall>z \<in> set ys'. hd ys' \<le> z))))"
proof (cases "1 < length ys \<and> confirmAnswer b")
  case False
  then have "removeCropYear b y s = Inr s"
    using assms(1) by (intro removeCropYear_refused) auto
  with False assms(1) show ?thesis by auto
next
  case True
  let ?ys' = "filter (\<lambda>yr. yr \<noteq> y) ys"
  from True assms(1) obtain s' where s':
    "removeCropYear b y s = Inr s'" "val (cropYears s') = Some ?ys'"
    "selectedYear s' = (if selectedYear s = Some y then find (\<lambda>yr. yr \<noteq> y) ys else selectedYear s)"
    using removeCropYear_done [of s ys b y] by blast
  from assms(2) True have ne: "?ys' \<noteq> []"
    by (simp add: another_year_remains)
  then have sel: "find (\<lambda>yr. yr \<noteq> y) ys = Some (hd ?ys')"
    by (simp add: find_filter split: list.splits)
  have least: "\<forall>z \<in> set ?ys'. hd ?ys' \<le> z" if "sorted ys"
  proof -
    from that have "sorted ?ys'" by (simp add: sorted_wrt_filter)
    then show ?thesis by (blast intro: sorted_hd_least)
  qed
  from True s' ne sel least show ?thesis by auto
qed

text \<open>Removing the selected year 2025 from the four default years selects 2024.\<close>

theorem removeCropYear_keeps_a_year_witness:
  "val (cropYears (sampleApp '''')) = Some DEFAULT_CROP_YEARS \<and>
   distinct DEFAULT_CROP_YEARS \<and> sorted DEFAULT_CROP_YEARS \<and>
   1 < length DEFAULT_CROP_YEARS \<and> confirmAnswer sampleBrowser \<and>
   selectedYear (sampleApp '''') = Some ''2025'' \<and>
   (\<exists>s'. removeCropYear sampleBrowser ''2025'' (sampleApp '''') = Inr s' \<and>
      val (cropYears s') = Some [''2024'', ''2026'', ''2027''] \<and>
      selectedYear s' = Some ''2024'')"
proof -
  have v: "val (cropYears (sampleApp '''')) = Some DEFAULT_CROP_YEARS"
    by (simp add: sampleApp_def onValue_def useFirebaseState_def)
  have d: "distinct DEFAULT_CROP_YEARS" "1 < length DEFAULT_CROP_YEARS"
    by (simp_all add: DEFAULT_CROP_YEARS_def)
  have so: "sorted DEFAULT_CROP_YEARS"
    by (simp add: DEFAULT_CROP_YEARS_def)
  have c: "confirmAnswer sampleBrowser" "selectedYear (sampleApp '''') = Some ''2025''"
    by (simp_all add: sampleBrowser_def sampleApp_def)
  have f: "filter (\<lambda>yr. yr \<noteq> ''2025'') DEFAULT_CROP_YEARS = [''2024'', ''2026'', ''2027'']"
    by (simp add: DEFAULT_CROP_YEARS_def)
  from removeCropYear_keeps_a_year [OF v d(1), of sampleBrowser "''2025''"] d(2) c
  obtain s' ys' where
    "removeCropYear sampleBrowser ''2025'' (sampleApp '''') = Inr s'"
    "val (cropYears s') = Some ys'" "ys' = filter (\<lambda>yr. yr \<noteq> ''2025'') DEFAULT_CROP_YEARS"
    "selectedYear s' = Some (hd ys')"
    by blast
  with f have "removeCropYear sampleBrowser ''2025'' (sampleApp '''') = Inr s' \<and>
      val (cropYears s') = Some [''2024'', ''2026'', ''2027''] \<and>
      selectedYear s' = Some ''2024''"
    by simp
  with v d so c show ?thesis by blast
qed
section \<open>Consumption updates: properties\<close>

text \<open>A number is whole when it is a finite integer or an infinity; it is not negative
  when it is \<open>0\<close> or more, or \<open>Infinity\<close>.\<close>

lemma toDouble_value:
  "toDouble m = PosInf \<or> (\<exists>k. toDouble m = Fin (of_int k) \<and> (0 \<le> m \<longrightarrow> 0 \<le> k))"
proof (cases "m < 2 ^ 53")
  case True
  then have "toDouble m = Fin (of_int m)" by (simp add: toDouble_def)
  then show ?thesis by blast
next
  case False
  define e where "e = bitLength (nat m) - 53"
  define q where "q = m div 2 ^ e"
  define q' where
    "q' = (if 2 ^ (e - 1) < m mod 2 ^ e \<or> (m mod 2 ^ e = 2 ^ (e - 1) \<and> odd q) then q + 1 else q)"
  define v where "v = q' * 2 ^ e"
  have "0 \<le> q" if "0 \<le> m"
    using that by (simp add: q_def pos_imp_zdiv_nonneg_iff)
  then have "0 \<le> q'" if "0 \<le> m"
    using that by (simp add: q'_def)
  then have nonneg: "0 \<le> v" if "0 \<le> m"
    using that by (simp add: v_def)
  from False have "toDouble m = (if 2 ^ 1024 \<le> v then PosInf else Fin (of_int v))"
    unfolding toDouble_def Let_def v_def q'_def q_def e_def by (simp only: if_False)
  then have "toDouble m = PosInf \<or> toDouble m = Fin (of_int v)"
    by (simp split: if_splits)
  with nonneg show ?thesis by blast
qed

lemma toDouble_exact: "m < 2 ^ 53 \<Longrightarrow> toDouble m = Fin (of_int m)"
  by (simp add: toDouble_def)

lemma bitLength_double: "0 < n \<Longrightarrow> bitLength (2 * n) = Suc (bitLength n)"
  by (subst bitLength.simps) simp

lemma bitLength_power: "bitLength (2 ^ k) = Suc k"
  by (induction k) (simp_all add: bitLength.simps bitLength_double)

lemma toDouble_overflow: "toDouble (2 ^ 1024) = PosInf"
proof -
  have "bitLength (nat (2 ^ 1024)) = 1025"
    using bitLength_power [of 1024] by (simp add: nat_power_eq)
  then show ?thesis
    by (simp add: toDouble_def Let_def)
qed

lemma digits_nonneg: "0 \<le> a \<Longrightarrow> 0 \<le> foldl (\<lambda>a c. a * int R + digitOf c) a Z"
  by (induction Z arbitrary: a) (simp_all add: digitOf_def split: option.splits)

text \<open>What \<^verbatim>\<open>parseInt\<close> returns is \<open>NaN\<close> or whole.\<close>

lemma parseInt_whole: "parseInt str = NaN \<or> wholeNum (parseInt str)"
proof -
  have "wholeNum (toDouble m)" "wholeNum (js_neg (toDouble m))" for m
    using toDouble_value [of m] by (auto simp add: wholeNum_def js_neg_def)
  then show ?thesis
    by (auto simp add: parseInt_def Let_def split: prod.splits)
qed

text \<open>\<^verbatim>\<open>parseInt\<close> yields a negative number only for a text whose first character after
  the white space is a minus sign.\<close>

lemma parseInt_nonneg:
  assumes "\<not> fst (stripSign (skipWhiteSpace str))"
  shows "parseInt str = NaN \<or> nonNegative (parseInt str)"
proof -
  obtain neg rest where s: "stripSign (skipWhiteSpace str) = (neg, rest)"
    by (cases "stripSign (skipWhiteSpace str)")
  with assms have n: "\<not> neg" by simp
  have "nonNegative (toDouble (foldl (\<lambda>a c. a * int R + digitOf c) 0 Z))" for R Z
    using toDouble_value [of "foldl (\<lambda>a c. a * int R + digitOf c) 0 Z"] digits_nonneg [of 0 R Z]
    by (auto simp add: nonNegative_def)
  from this [of 16] this [of 10] s n show ?thesis
    by (auto simp add: parseInt_def Let_def)
qed

lemma numOrZero_whole: "wholeNum (numOrZero (parseInt str))"
  using parseInt_whole [of str] by (auto simp add: numOrZero_def falsyNum_def wholeNum_def)

lemma numOrZero_nonneg:
  "\<not> fst (stripSign (skipWhiteSpace str)) \<Longrightarrow> nonNegative (numOrZero (parseInt str))"
  using parseInt_nonneg [of str] by (auto simp add: numOrZero_def falsyNum_def nonNegative_def)

lemma updateConsumption_val:
  "val (consumption (updateConsumption b ent year input s)) =
     Some (AList.update ent
             (AList.update year (numOrZero (parseInt input))
                (orEmpty (optGet (val (consumption s)) ent)))
             (spread (val (consumption s))))"
  by (simp add: updateConsumption_def Let_def setAndSync_def setTimeout_def
      clearTimeout_def applyUpdater_def)

lemma updateConsumption_timer:
  "last (timers (consumption (updateConsumption b ent year input s))) =
     (nextTimer (consumption s), nowMs b + 500,
      val (consumption (updateConsumption b ent year input s)))"
  by (simp add: updateConsumption_def Let_def setAndSync_def setTimeout_def
      clearTimeout_def applyUpdater_def)

lemma optGet_spread: "optGet (Some (spread x)) k = optGet x k"
  by (simp add: optGet_def spread_def split: option.splits)

lemma optGet_orEmpty: "optGet (Some (orEmpty x)) k = optGet x k"
  by (simp add: optGet_def orEmpty_def split: option.splits)

lemma optGet_update:
  "optGet (Some (AList.update k v m)) k' = (if k' = k then Some v else optGet (Some m) k')"
  by (simp add: optGet_def update_conv')

text \<open>
  C9, as the code has it. After a consumption update the value stored for the entity and
  year is \<^verbatim>\<open>parseInt(val) || 0\<close>: a whole number (the integer the leading digits denote,
  as a double, or an infinity when the digits exceed the double range), and \<open>0\<close> when the
  text is empty or has no leading number. It is not negative unless the text, after its
  leading white space, has a minus sign first. No other entry of the mapping changes, and
  the new mapping is the value the pending debounced write carries.
\<close>

theorem updateConsumption_stores_parsed_integer:
  "optGet (optGet (val (consumption (updateConsumption b ent year input s))) ent) year =
     Some (numOrZero (parseInt input)) \<and>
   wholeNum (numOrZero (parseInt input)) \<and>
   (parseInt input = NaN \<longrightarrow> numOrZero (parseInt input) = Fin 0) \<and>
   (\<not> fst (stripSign (skipWhiteSpace input)) \<longrightarrow> nonNegative (numOrZero (parseInt input))) \<and>
   (\<forall>e' y'. (e', y') \<noteq> (ent, year) \<longrightarrow>
      optGet (optGet (val (consumption (updateConsumption b ent year input s))) e') y' =
      optGet (optGet (val (consumption s)) e') y') \<and>
   last (timers (consumption (updateConsumption b ent year input s))) =
     (nextTimer (consumption s), nowMs b + 500,
      val (consumption (updateConsumption b ent year input s)))"
proof -
  have stored:
    "optGet (optGet (val (consumption (updateConsumption b ent year input s))) ent) year =
       Some (numOrZero (parseInt input))"
    by (simp add: updateConsumption_val optGet_update)
  have others:
    "optGet (optGet (val (consumption (updateConsumption b ent year input s))) e') y' =
     optGet (optGet (val (consumption s)) e') y'"
    if "(e', y') \<noteq> (ent, year)" for e' y'
    using that
    by (auto simp add: updateConsumption_val optGet_update optGet_spread optGet_orEmpty)
  have nan: "numOrZero (parseInt input) = Fin 0" if "parseInt input = NaN"
    using that by (simp add: numOrZero_def falsyNum_def)
  from stored others nan numOrZero_whole numOrZero_nonneg updateConsumption_timer
  show ?thesis by simp
qed

text \<open>Sample texts: digits, nothing, a minus sign, a no-break space before the minus
  sign, and digit runs beyond \<open>2^53\<close> and beyond the double range.\<close>

lemma parseInt_samples:
  "parseInt ''2600000'' = Fin 2600000" "parseInt '''' = NaN" "parseInt ''-5'' = Fin (- 5)"
  "parseInt ([CHR 0xC2, CHR 0xA0] @ ''-5'') = Fin (- 5)"
  "parseInt ''9007199254740993'' = Fin 9007199254740992"
  by (simp_all add: parseInt_eval bitLength.simps)

text \<open>Typing \<open>2600000\<close> for Feedlot in 2025 stores it and leaves Hog Finishing as it was;
  clearing the field stores \<open>0\<close>.\<close>

theorem updateConsumption_stores_parsed_integer_witness:
  "\<not> fst (stripSign (skipWhiteSpace ''2600000'')) \<and>
   optGet (optGet (val (consumption
      (updateConsumption sampleBrowser ''Feedlot'' ''2025'' ''2600000'' (sampleApp ''''))))
      ''Feedlot'') ''2025'' = Some (Fin 2600000) \<and>
   (''Hog Finishing'', ''2025'') \<noteq> (''Feedlot'', ''2025'') \<and>
   optGet (optGet (val (consumption
      (updateConsumption sampleBrowser ''Feedlot'' ''2025'' ''2600000'' (sampleApp ''''))))
      ''Hog Finishing'') ''2025'' = Some (Fin 2600000) \<and>
   parseInt '''' = NaN \<and>
   optGet (optGet (val (consumption
      (updateConsumption sampleBrowser ''Feedlot'' ''2025'' '''' (sampleApp ''''))))
      ''Feedlot'') ''2025'' = Some (Fin 0)"
proof -
  have pos: "\<not> fst (stripSign (skipWhiteSpace ''2600000''))"
    by (simp add: skipWhiteSpace_def startsWith_def whiteSpace_def)
  have before: "optGet (optGet (val (consumption (sampleApp ''''))) ''Hog Finishing'') ''2025'' =
      Some (Fin 2600000)"
    by (simp add: sampleApp_def onValue_def useFirebaseState_def defaultConsumption_def optGet_def)
  have ne: "(''Hog Finishing'', ''2025'') \<noteq> (''Feedlot'', ''2025'')"
    by simp
  have z: "numOrZero (Fin 2600000) = Fin 2600000" "numOrZero NaN = Fin 0"
    by (simp_all add: numOrZero_def falsyNum_def)
  from updateConsumption_stores_parsed_integer
         [of sampleBrowser "''Feedlot''" "''2025''" "''2600000''" "sampleApp ''''"]
       updateConsumption_stores_parsed_integer
         [of sampleBrowser "''Feedlot''" "''2025''" "''''" "sampleApp ''''"]
       pos before ne parseInt_samples z
  show ?thesis by simp
qed

text \<open>C9 as stated fails: typing \<open>-5\<close> stores the negative number \<open>-5\<close>.\<close>

theorem updateConsumption_stores_negative:
  "optGet (optGet (val (consumption
      (updateConsumption sampleBrowser ''Feedlot'' ''2025'' ''-5'' (sampleApp ''''))))
      ''Feedlot'') ''2025'' = Some (Fin (- 5)) \<and>
   \<not> nonNegative (Fin (- 5))"
  by (simp add: updateConsumption_val optGet_update parseInt_samples numOrZero_def
      falsyNum_def nonNegative_def)
section \<open>hedgesObjToArray: properties\<close>

text \<open>Decimal printing is injective, so the index keys of an array or a string are
  distinct.\<close>

lemma digitChar_inj:
  assumes "digitChar d = digitChar e"
  shows "d mod 10 = e mod 10"
proof -
  have "distinct ''0123456789''" by simp
  moreover have "d mod 10 < length ''0123456789''" "e mod 10 < length ''0123456789''"
    by simp_all
  ultimately show ?thesis
    using assms unfolding digitChar_def by (simp only: nth_eq_iff_index_eq)
qed

lemma showNat_not_Nil: "showNat n \<noteq> []"
  by (subst showNat.simps) simp

lemma showNat_inj: "showNat m = showNat n \<Longrightarrow> m = n"
proof (induction m arbitrary: n rule: showNat.induct)
  case (1 m)
  show ?case
  proof (cases "m < 10")
    case True
    then have m: "showNat m = [digitChar m]" by (subst showNat.simps) simp
    show ?thesis
    proof (cases "n < 10")
      case True
      then have "showNat n = [digitChar n]" by (subst showNat.simps) simp
      with m "1.prems" have "digitChar m = digitChar n" by simp
      then have "m mod 10 = n mod 10" by (rule digitChar_inj)
      with \<open>m < 10\<close> \<open>n < 10\<close> show ?thesis by simp
    next
      case False
      then have "showNat n = showNat (n div 10) @ [digitChar n]" by (subst showNat.simps) simp
      with m "1.prems" showNat_not_Nil [of "n div 10"] show ?thesis by simp
    qed
  next
    case False
    then have m: "showNat m = showNat (m div 10) @ [digitChar m]" by (subst showNat.simps) simp
    show ?thesis
    proof (cases "n < 10")
      case True
      then have "showNat n = [digitChar n]" by (subst showNat.simps) simp
      with m "1.prems" showNat_not_Nil [of "m div 10"] show ?thesis by simp
    next
      case nbig: False
      then have "showNat n = showNat (n div 10) @ [digitChar n]" by (subst showNat.simps) simp
      with m "1.prems" have eq: "showNat (m div 10) = showNat (n div 10)" "digitChar m = digitChar n"
        by simp_all
      from eq(1) have "m div 10 = n div 10" by (rule "1.IH" [OF False])
      moreover from eq(2) have "m mod 10 = n mod 10" by (rule digitChar_inj)
      ultimately show ?thesis by (metis div_mult_mod_eq)
    qed
  qed
qed

lemma index_keys_distinct: "distinct (map showNat [0..<n])"
  by (simp add: distinct_map inj_on_def showNat_inj)

lemma keysOnce_not_plain_object: "(\<And>kvs. v \<noteq> JObj kvs) \<Longrightarrow> keysOnce v"
  by (cases v) (auto simp add: keysOnce_def ownEntries_def index_keys_distinct)

text \<open>A spread onto \<open>acc\<close> gives every property of the value, and keeps the properties of
  \<open>acc\<close> that the value does not have.\<close>

lemma map_of_foldl_update:
  "distinct (map fst es) \<Longrightarrow>
   map_of (foldl (\<lambda>res (k, x). AList.update k x res) acc es) f =
     (case map_of es f of None \<Rightarrow> map_of acc f | Some v \<Rightarrow> Some v)"
proof (induction es arbitrary: acc)
  case Nil
  then show ?case by simp
next
  case (Cons e es)
  obtain k x where e: "e = (k, x)" by (cases e)
  from Cons.prems e have k: "map_of es k = None" and d: "distinct (map fst es)"
    by (simp_all add: map_of_eq_None_iff)
  from Cons.IH [OF d, of "AList.update k x acc"] e k show ?case
    by (simp add: update_conv' split: option.splits)
qed

lemma getField_objSpread:
  "keysOnce d \<Longrightarrow>
   map_of (objSpread acc d) f = (case getField d f of None \<Rightarrow> map_of acc f | Some v \<Rightarrow> Some v)"
  by (simp add: objSpread_def getField_def keysOnce_def map_of_foldl_update)

lemma hedgesObjToArray_not_object: "\<not> isObject obj \<Longrightarrow> hedgesObjToArray obj = []"
  by (cases obj) (simp_all add: hedgesObjToArray_def isObject_def falsy_def typeof_def)

lemma hedgesObjToArray_object:
  "isObject obj \<Longrightarrow>
   hedgesObjToArray obj =
     map (\<lambda>(id, data). JObj (objSpread [(''id'', JStr id)] data)) (ownEntries obj)"
  by (cases obj) (simp_all add: hedgesObjToArray_def isObject_def falsy_def typeof_def)

text \<open>
  C10, as the code has it. \<^verbatim>\<open>hedgesObjToArray\<close> returns for every value. For \<open>null\<close>,
  \<open>undefined\<close> and every value that is not an object the result is the empty array. For
  an object it has one element per key, in key order; the element for a key holds every
  field of the stored record, and its \<^verbatim>\<open>id\<close> field is the key when the stored record has
  no \<^verbatim>\<open>id\<close> field of its own, and the record's own \<^verbatim>\<open>id\<close> when it has one.
\<close>

theorem hedgesObjToArray_elements:
  "(\<not> isObject obj \<longrightarrow> hedgesObjToArray obj = []) \<and>
   (isObject obj \<longrightarrow>
      length (hedgesObjToArray obj) = length (ownEntries obj) \<and>
      (\<forall>i < length (ownEntries obj).
         keysOnce (snd (ownEntries obj ! i)) \<longrightarrow>
           getField (hedgesObjToArray obj ! i) ''id'' =
             (case getField (snd (ownEntries obj ! i)) ''id'' of
                None \<Rightarrow> Some (JStr (fst (ownEntries obj ! i)))
              | Some v \<Rightarrow> Some v) \<and>
           (\<forall>f. f \<noteq> ''id'' \<longrightarrow>
              getField (hedgesObjToArray obj ! i) f = getField (snd (ownEntries obj ! i)) f)))"
proof -
  have elems:
    "getField (hedgesObjToArray obj ! i) f =
       (case getField (snd (ownEntries obj ! i)) f of
          None \<Rightarrow> (if f = ''id'' then Some (JStr (fst (ownEntries obj ! i))) else None)
        | Some v \<Rightarrow> Some v)"
    if "isObject obj" "i < length (ownEntries obj)" "keysOnce (snd (ownEntries obj ! i))" for i f
  proof -
    obtain k d where kd: "ownEntries obj ! i = (k, d)"
      by (cases "ownEntries obj ! i")
    with that have "hedgesObjToArray obj ! i = JObj (objSpread [(''id'', JStr k)] d)"
      by (simp add: hedgesObjToArray_object)
    then have "getField (hedgesObjToArray obj ! i) f = map_of (objSpread [(''id'', JStr k)] d) f"
      by (simp add: getField_def ownEntries_def)
    with that(3) kd show ?thesis
      by (auto simp add: getField_objSpread split: option.splits)
  qed
  have len: "length (hedgesObjToArray obj) = length (ownEntries obj)" if "isObject obj"
    using that by (simp add: hedgesObjToArray_object)
  show ?thesis
    using hedgesObjToArray_not_object len elems
    by (auto split: option.splits)
qed

text \<open>A ledger of two records, the second stored as an array: each element has its key as
  \<^verbatim>\<open>id\<close> and the stored fields.\<close>

theorem hedgesObjToArray_elements_witness:
  "isObject (JObj [(''id_1_900'', JObj (encodeEntry sampleEntry)), (''id_2_900'', JArr [JStr ''x''])]) \<and>
   \<not> isObject (JStr ''abc'') \<and> hedgesObjToArray (JStr ''abc'') = [] \<and>
   keysOnce (JObj (encodeEntry sampleEntry)) \<and>
   length (hedgesObjToArray
      (JObj [(''id_1_900'', JObj (encodeEntry sampleEntry)), (''id_2_900'', JArr [JStr ''x''])])) = 2 \<and>
   getField (hedgesObjToArray
      (JObj [(''id_1_900'', JObj (encodeEntry sampleEntry)), (''id_2_900'', JArr [JStr ''x''])]) ! 0)
      ''id'' = Some (JStr ''id_1_900'') \<and>
   getField (hedgesObjToArray
      (JObj [(''id_1_900'', JObj (encodeEntry sampleEntry)), (''id_2_900'', JArr [JStr ''x''])]) ! 0)
      ''quantity'' = Some (JNum (Fin 600000))"
proof -
  let ?obj = "JObj [(''id_1_900'', JObj (encodeEntry sampleEntry)), (''id_2_900'', JArr [JStr ''x''])]"
  have o: "isObject ?obj" "\<not> isObject (JStr ''abc'')"
    by (simp_all add: isObject_def)
  have e: "ownEntries ?obj = [(''id_1_900'', JObj (encodeEntry sampleEntry)), (''id_2_900'', JArr [JStr ''x''])]"
    by (simp add: ownEntries_def)
  have k: "keysOnce (JObj (encodeEntry sampleEntry))"
    by (simp add: keysOnce_def ownEntries_def encodeEntry_def)
  have g: "getField (JObj (encodeEntry sampleEntry)) ''id'' = None"
    "getField (JObj (encodeEntry sampleEntry)) ''quantity'' = Some (JNum (Fin 600000))"
    by (simp_all add: getField_def ownEntries_def encodeEntry_def sampleEntry_def)
  from hedgesObjToArray_elements [of ?obj] hedgesObjToArray_elements [of "JStr ''abc''"] o k g
  show ?thesis
    unfolding e by simp
qed

text \<open>C10 as stated fails for a stored record that has an \<^verbatim>\<open>id\<close> field: the spread puts
  the record's \<^verbatim>\<open>id\<close> in place of the key.\<close>

theorem hedgesObjToArray_stored_id_wins:
  "hedgesObjToArray (JObj [(''k1'', JObj [(''id'', JStr ''x''), (''quantity'', JNum (Fin 5))])]) =
     [JObj [(''id'', JStr ''x''), (''quantity'', JNum (Fin 5))]] \<and>
   getField (hd (hedgesObjToArray
      (JObj [(''k1'', JObj [(''id'', JStr ''x''), (''quantity'', JNum (Fin 5))])]))) ''id'' \<noteq>
     Some (JStr ''k1'')"
  by (simp add: hedgesObjToArray_def falsy_def typeof_def ownEntries_def objSpread_def
      getField_def)

text \<open>On a ledger of typed records, which have no \<^verbatim>\<open>id\<close> field, the array is the typed
  one: each record with its key as \<^verbatim>\<open>id\<close>.\<close>

lemma spread_typed_entry:
  "JObj (objSpread [(''id'', JStr k)] (JObj (encodeEntry d))) = encodeHedge (withId k d)"
  by (simp add: objSpread_def ownEntries_def encodeEntry_def encodeHedge_def withId_def
      hedge_rec.truncate_def)

lemma hedgesObjToArray_typed:
  "hedgesObjToArray (encodeLedger obj) = map encodeHedge (hedgesArray obj)"
proof (cases obj)
  case None
  then show ?thesis
    by (simp add: encodeLedger_def hedgesArray_def hedgesObjToArray_def falsy_def)
next
  case (Some m)
  have "map (\<lambda>(id, data). JObj (objSpread [(''id'', JStr id)] data))
          (map (\<lambda>(k, d). (k, JObj (encodeEntry d))) m) =
        map (\<lambda>(k, d). encodeHedge (withId k d)) m"
    by (induction m) (auto simp add: spread_typed_entry)
  with Some show ?thesis
    by (simp add: encodeLedger_def hedgesArray_def hedgesObjToArray_def falsy_def typeof_def
        ownEntries_def case_prod_beta comp_def)
qed

end
